theory Spec2Isabelle
  imports Main "HOL-Library.Sublist"
begin

section \<open>POSIX path functions used by the handlers\<close>

text \<open>
  The handlers of \<^verbatim>\<open>src/main/ipc/models.ts\<close> call \<^verbatim>\<open>path.join\<close> and
  \<^verbatim>\<open>path.resolve\<close> of the Node.js runtime. They are modelled here in their POSIX
  variant, segment by segment: a path is cut at every \<^verbatim>\<open>/\<close>, empty segments and
  \<^verbatim>\<open>.\<close> are dropped, and \<^verbatim>\<open>..\<close> removes the segment before it.
\<close>

fun segments :: "string \<Rightarrow> string list" where
  "segments [] = [[]]"
| "segments (c # cs) =
     (if c = CHR ''/'' then [] # segments cs
      else (case segments cs of [] \<Rightarrow> [[c]] | s # ss \<Rightarrow> (c # s) # ss))"

fun join_slash :: "string list \<Rightarrow> string" where
  "join_slash [] = []"
| "join_slash [s] = s"
| "join_slash (s # t # ss) = s @ CHR ''/'' # join_slash (t # ss)"

text \<open>
  \<^verbatim>\<open>normalizeString(path, allowAboveRoot)\<close>: \<open>res\<close> is the list of segments kept so far.
  A \<^verbatim>\<open>..\<close> removes the last kept segment unless there is none or it is itself
  \<^verbatim>\<open>..\<close>; in that case it is kept when \<open>allowAboveRoot\<close> holds and dropped otherwise.
\<close>

fun normalizeSegs :: "bool \<Rightarrow> string list \<Rightarrow> string list \<Rightarrow> string list" where
  "normalizeSegs allowAboveRoot res [] = res"
| "normalizeSegs allowAboveRoot res (seg # rest) =
     (if seg = [] \<or> seg = ''.'' then normalizeSegs allowAboveRoot res rest
      else if seg = ''..'' then
        (if res \<noteq> [] \<and> last res \<noteq> ''..''
           then normalizeSegs allowAboveRoot (butlast res) rest
         else if allowAboveRoot
           then normalizeSegs allowAboveRoot (res @ [''..'']) rest
         else normalizeSegs allowAboveRoot res rest)
      else normalizeSegs allowAboveRoot (res @ [seg]) rest)"

definition normalizeString :: "string \<Rightarrow> bool \<Rightarrow> string" where
  "normalizeString path allowAboveRoot =
     join_slash (normalizeSegs allowAboveRoot [] (segments path))"

definition normalize :: "string \<Rightarrow> string" where
  "normalize path =
     (if path = [] then ''.''
      else
        let isAbsolute = (hd path = CHR ''/'');
            trailingSeparator = (last path = CHR ''/'');
            p = normalizeString path (\<not> isAbsolute)
        in if p = [] then
             (if isAbsolute then ''/'' else if trailingSeparator then ''./'' else ''.'')
           else
             (let q = (if trailingSeparator then p @ ''/'' else p)
              in if isAbsolute then CHR ''/'' # q else q))"

definition path_join :: "string list \<Rightarrow> string" where
  "path_join args =
     (let parts = filter (\<lambda>a. a \<noteq> []) args
      in if parts = [] then ''.'' else normalize (join_slash parts))"

text \<open>
  \<^verbatim>\<open>path.resolve\<close> walks its arguments from the last to the first and then the
  current working directory, prepending each non-empty one until an absolute one has
  been prepended.
\<close>

fun resolve_loop :: "string list \<Rightarrow> string \<Rightarrow> string \<times> bool" where
  "resolve_loop [] resolvedPath = (resolvedPath, False)"
| "resolve_loop (p # ps) resolvedPath =
     (if p = [] then resolve_loop ps resolvedPath
      else if hd p = CHR ''/'' then (p @ ''/'' @ resolvedPath, True)
      else resolve_loop ps (p @ ''/'' @ resolvedPath))"

definition path_resolve :: "string \<Rightarrow> string list \<Rightarrow> string" where
  "path_resolve cwd args =
     (case resolve_loop (rev args @ [cwd]) [] of
        (resolvedPath, resolvedAbsolute) \<Rightarrow>
          let n = normalizeString resolvedPath (\<not> resolvedAbsolute)
          in if resolvedAbsolute then CHR ''/'' # n
             else if n \<noteq> [] then n else ''.'')"

definition startsWith :: "string \<Rightarrow> string \<Rightarrow> bool" where
  "startsWith s p = (take (length p) s = p)"

section \<open>Persistent state of the main process\<close>

text \<open>
  The settings store (\<^verbatim>\<open>electron-store\<close>, file \<^verbatim>\<open>settings\<close>) is a map from keys to
  values; the two keys used are \<^verbatim>\<open>defaultModel\<close> and \<^verbatim>\<open>workspacePath\<close>, both
  holding strings.
\<close>

type_synonym settings = "string \<rightharpoonup> string"

definition store_get :: "settings \<Rightarrow> string \<Rightarrow> string \<Rightarrow> string" where
  "store_get st key defaultValue = (case st key of None \<Rightarrow> defaultValue | Some v \<Rightarrow> v)"

definition store_get_or_null :: "settings \<Rightarrow> string \<Rightarrow> string option" where
  "store_get_or_null st key = (case st key of None \<Rightarrow> None | Some v \<Rightarrow> Some v)"

definition store_set :: "settings \<Rightarrow> string \<Rightarrow> string \<Rightarrow> settings" where
  "store_set st key v = st(key \<mapsto> v)"

definition store_delete :: "settings \<Rightarrow> string \<Rightarrow> settings" where
  "store_delete st key = st(key := None)"


section \<open>Provider and model catalog\<close>

record ProviderBase =
  provider_id :: string
  provider_name :: string

record Provider = ProviderBase +
  provider_hasApiKey :: bool

record ModelConfig =
  model_id :: string
  model_name :: string
  provider :: string
  model :: string
  description :: "string option"
  available :: bool

definition PROVIDERS :: "ProviderBase list" where
  "PROVIDERS =
    [\<lparr>provider_id = ''anthropic'', provider_name = ''Anthropic''\<rparr>,
     \<lparr>provider_id = ''openai'', provider_name = ''OpenAI''\<rparr>,
     \<lparr>provider_id = ''google'', provider_name = ''Google''\<rparr>,
     \<lparr>provider_id = ''zai'', provider_name = ''Z.ai''\<rparr>]"

definition AVAILABLE_MODELS :: "ModelConfig list" where
  "AVAILABLE_MODELS =
    [
     \<lparr>model_id = ''claude-opus-4-5-20251101'', model_name = ''Claude Opus 4.5'',
      provider = ''anthropic'', model = ''claude-opus-4-5-20251101'',
      description = Some ''Premium model with maximum intelligence'',
      available = True\<rparr>,
     \<lparr>model_id = ''claude-sonnet-4-5-20250929'', model_name = ''Claude Sonnet 4.5'',
      provider = ''anthropic'', model = ''claude-sonnet-4-5-20250929'',
      description = Some ''Best balance of intelligence, speed, and cost for agents'',
      available = True\<rparr>,
     \<lparr>model_id = ''claude-haiku-4-5-20251001'', model_name = ''Claude Haiku 4.5'',
      provider = ''anthropic'', model = ''claude-haiku-4-5-20251001'',
      description = Some ''Fastest model with near-frontier intelligence'',
      available = True\<rparr>,
     \<lparr>model_id = ''claude-opus-4-1-20250805'', model_name = ''Claude Opus 4.1'',
      provider = ''anthropic'', model = ''claude-opus-4-1-20250805'',
      description = Some ''Previous generation premium model with extended thinking'',
      available = True\<rparr>,
     \<lparr>model_id = ''claude-sonnet-4-20250514'', model_name = ''Claude Sonnet 4'',
      provider = ''anthropic'', model = ''claude-sonnet-4-20250514'',
      description = Some ''Fast and capable previous generation model'',
      available = True\<rparr>,
     \<lparr>model_id = ''gpt-5.2'', model_name = ''GPT-5.2'',
      provider = ''openai'', model = ''gpt-5.2'',
      description = Some ''Latest flagship with enhanced coding and agentic capabilities'',
      available = True\<rparr>,
     \<lparr>model_id = ''gpt-5.1'', model_name = ''GPT-5.1'',
      provider = ''openai'', model = ''gpt-5.1'',
      description = Some ''Advanced reasoning and robust performance'',
      available = True\<rparr>,
     \<lparr>model_id = ''o3'', model_name = ''o3'',
      provider = ''openai'', model = ''o3'',
      description = Some ''Advanced reasoning for complex problem-solving'',
      available = True\<rparr>,
     \<lparr>model_id = ''o3-mini'', model_name = ''o3 Mini'',
      provider = ''openai'', model = ''o3-mini'',
      description = Some ''Cost-effective reasoning with faster response times'',
      available = True\<rparr>,
     \<lparr>model_id = ''o4-mini'', model_name = ''o4 Mini'',
      provider = ''openai'', model = ''o4-mini'',
      description = Some ''Fast, efficient reasoning model succeeding o3'',
      available = True\<rparr>,
     \<lparr>model_id = ''o1'', model_name = ''o1'',
      provider = ''openai'', model = ''o1'',
      description = Some ''Premium reasoning for research, coding, math and science'',
      available = True\<rparr>,
     \<lparr>model_id = ''gpt-4.1'', model_name = ''GPT-4.1'',
      provider = ''openai'', model = ''gpt-4.1'',
      description = Some ''Strong instruction-following with 1M context window'',
      available = True\<rparr>,
     \<lparr>model_id = ''gpt-4.1-mini'', model_name = ''GPT-4.1 Mini'',
      provider = ''openai'', model = ''gpt-4.1-mini'',
      description = Some ''Faster, smaller version balancing performance and efficiency'',
      available = True\<rparr>,
     \<lparr>model_id = ''gpt-4.1-nano'', model_name = ''GPT-4.1 Nano'',
      provider = ''openai'', model = ''gpt-4.1-nano'',
      description = Some ''Most cost-efficient for lighter tasks'',
      available = True\<rparr>,
     \<lparr>model_id = ''gpt-4o'', model_name = ''GPT-4o'',
      provider = ''openai'', model = ''gpt-4o'',
      description = Some ''Versatile model for text generation and comprehension'',
      available = True\<rparr>,
     \<lparr>model_id = ''gpt-4o-mini'', model_name = ''GPT-4o Mini'',
      provider = ''openai'', model = ''gpt-4o-mini'',
      description = Some ''Cost-efficient variant with faster response times'',
      available = True\<rparr>,
     \<lparr>model_id = ''gemini-3-pro-preview'', model_name = ''Gemini 3 Pro Preview'',
      provider = ''google'', model = ''gemini-3-pro-preview'',
      description = Some ''State-of-the-art reasoning and multimodal understanding'',
      available = True\<rparr>,
     \<lparr>model_id = ''gemini-3-flash-preview'', model_name = ''Gemini 3 Flash Preview'',
      provider = ''google'', model = ''gemini-3-flash-preview'',
      description = Some ''Fast frontier-class model with low latency and cost'',
      available = True\<rparr>,
     \<lparr>model_id = ''gemini-2.5-pro'', model_name = ''Gemini 2.5 Pro'',
      provider = ''google'', model = ''gemini-2.5-pro'',
      description = Some ''High-capability model for complex reasoning and coding'',
      available = True\<rparr>,
     \<lparr>model_id = ''gemini-2.5-flash'', model_name = ''Gemini 2.5 Flash'',
      provider = ''google'', model = ''gemini-2.5-flash'',
      description = Some ''Lightning-fast with balance of intelligence and latency'',
      available = True\<rparr>,
     \<lparr>model_id = ''gemini-2.5-flash-lite'', model_name = ''Gemini 2.5 Flash Lite'',
      provider = ''google'', model = ''gemini-2.5-flash-lite'',
      description = Some ''Fast, low-cost, high-performance model'',
      available = True\<rparr>,
     \<lparr>model_id = ''glm-4.7'', model_name = ''GLM-4.7'',
      provider = ''zai'', model = ''glm-4.7'',
      description = Some ''Latest flagship model with excellent agentic coding capabilities'',
      available = True\<rparr>,
     \<lparr>model_id = ''glm-4.6v'', model_name = ''GLM-4.6V'',
      provider = ''zai'', model = ''glm-4.6v'',
      description = Some ''Multimodal model with 128K context and SOTA vision understanding'',
      available = True\<rparr>,
     \<lparr>model_id = ''glm-4-plus'', model_name = ''GLM-4 Plus'',
      provider = ''zai'', model = ''glm-4-plus'',
      description = Some ''Enhanced reasoning and accuracy'',
      available = True\<rparr>,
     \<lparr>model_id = ''glm-4-flash'', model_name = ''GLM-4 Flash'',
      provider = ''zai'', model = ''glm-4-flash'',
      description = Some ''Fast and cost-efficient model'',
      available = True\<rparr>,
     \<lparr>model_id = ''glm-4.5'', model_name = ''GLM-4.5'',
      provider = ''zai'', model = ''glm-4.5'',
      description = Some ''Advanced chain-of-thought reasoning'',
      available = True\<rparr>,
     \<lparr>model_id = ''glm-4.5-air'', model_name = ''GLM-4.5 Air'',
      provider = ''zai'', model = ''glm-4.5-air'',
      description = Some ''Lightweight version with faster inference'',
      available = True\<rparr>,
     \<lparr>model_id = ''glm-4-32b-0414-128k'', model_name = ''GLM-4-32B-128K'',
      provider = ''zai'', model = ''glm-4-32b-0414-128k'',
      description = Some ''32B parameter model with 128K context window'',
      available = True\<rparr>,
     \<lparr>model_id = ''glm-4.5v'', model_name = ''GLM-4.5V'',
      provider = ''zai'', model = ''glm-4.5v'',
      description = Some ''Vision model supporting image understanding'',
      available = True\<rparr>
    ]"

text \<open>
  \<^verbatim>\<open>hasApiKey\<close> is imported from the storage module; the handlers only call it, so
  it is a parameter here.
\<close>

definition models_list :: "(string \<Rightarrow> bool) \<Rightarrow> ModelConfig list" where
  "models_list hasApiKey =
     map (\<lambda>m. m\<lparr>available := hasApiKey (provider m)\<rparr>) AVAILABLE_MODELS"

definition models_listProviders :: "(string \<Rightarrow> bool) \<Rightarrow> Provider list" where
  "models_listProviders hasApiKey =
     map (\<lambda>p. \<lparr>provider_id = provider_id p, provider_name = provider_name p,
                provider_hasApiKey = hasApiKey (provider_id p)\<rparr>) PROVIDERS"

section \<open>Sessions, watches and the effect trace\<close>

text \<open>
  A thread row keeps its metadata as the JSON text of an object; the handlers parse it,
  read or write the key \<^verbatim>\<open>workspacePath\<close> and write the object back. The object is
  modelled as a map from keys to JSON values; the handlers cast the value of
  \<^verbatim>\<open>workspacePath\<close> to \<^verbatim>\<open>string | null\<close>, so values are strings or null.
  A row without metadata, or with the empty text, is \<open>None\<close>. Every writer stores the
  text of an object, so text that does not parse is not a state of the model.
\<close>

datatype json = JNull | JStr string

type_synonym metadata = "string \<rightharpoonup> json"

record thread =
  thread_title :: "string option"
  thread_status :: string
  thread_metadata :: "metadata option"

datatype effect =
    StoreSet string string
  | StoreDelete string
  | UpdateThread string metadata
  | StartWatching string string
  | StopWatching string
  | FsReaddir string
  | FsStat string
  | FsReadFile string

record state =
  store :: settings
  threads :: "string \<rightharpoonup> thread"
  watchers :: "string \<rightharpoonup> string"
  trace :: "effect list"

text \<open>
  Modelled from the spec: the session store of \<^verbatim>\<open>../db\<close> (\<^verbatim>\<open>getThread\<close>,
  \<^verbatim>\<open>updateThread\<close>) is not part of the sources. A session is looked up by its
  identifier; an update replaces the metadata of an existing session and leaves every
  other session alone.
\<close>

definition getThread :: "state \<Rightarrow> string \<Rightarrow> thread option" where
  "getThread s threadId = threads s threadId"

definition updateThread :: "state \<Rightarrow> string \<Rightarrow> metadata \<Rightarrow> state" where
  "updateThread s threadId meta =
     s\<lparr>threads := (case threads s threadId of
                       None \<Rightarrow> threads s
                     | Some th \<Rightarrow> (threads s)(threadId \<mapsto> th\<lparr>thread_metadata := Some meta\<rparr>)),
       trace := trace s @ [UpdateThread threadId meta]\<rparr>"

text \<open>
  Modelled from the spec: the watcher manager of \<^verbatim>\<open>../services/workspace-watcher\<close>
  is not part of the sources. Starting a watch for a session replaces the one it has;
  stopping removes it and does nothing when there is none.
\<close>

definition startWatching :: "state \<Rightarrow> string \<Rightarrow> string \<Rightarrow> state" where
  "startWatching s threadId workspacePath =
     s\<lparr>watchers := (watchers s)(threadId \<mapsto> workspacePath),
       trace := trace s @ [StartWatching threadId workspacePath]\<rparr>"

definition stopWatching :: "state \<Rightarrow> string \<Rightarrow> state" where
  "stopWatching s threadId =
     s\<lparr>watchers := (watchers s)(threadId := None),
       trace := trace s @ [StopWatching threadId]\<rparr>"

text \<open>JavaScript truthiness of a \<^verbatim>\<open>string | null | undefined\<close> value.\<close>

definition truthy :: "string option \<Rightarrow> bool" where
  "truthy v = (case v of None \<Rightarrow> False | Some x \<Rightarrow> x \<noteq> [])"

definition to_json :: "string option \<Rightarrow> json" where
  "to_json v = (case v of None \<Rightarrow> JNull | Some x \<Rightarrow> JStr x)"

definition metadata_workspacePath :: "metadata \<Rightarrow> string option" where
  "metadata_workspacePath meta =
     (case meta ''workspacePath'' of Some (JStr p) \<Rightarrow> Some p | _ \<Rightarrow> None)"

text \<open>\<^verbatim>\<open>thread?.metadata ? JSON.parse(thread.metadata) : {}\<close>\<close>

definition parsed_metadata :: "state \<Rightarrow> string \<Rightarrow> metadata" where
  "parsed_metadata s threadId =
     (case getThread s threadId of
        None \<Rightarrow> Map.empty
      | Some th \<Rightarrow> (case thread_metadata th of None \<Rightarrow> Map.empty | Some meta \<Rightarrow> meta))"

section \<open>Default model\<close>

definition models_getDefault :: "state \<Rightarrow> string" where
  "models_getDefault s = store_get (store s) ''defaultModel'' ''claude-sonnet-4-5-20250929''"

definition models_setDefault :: "state \<Rightarrow> string \<Rightarrow> state" where
  "models_setDefault s modelId =
     s\<lparr>store := store_set (store s) ''defaultModel'' modelId,
       trace := trace s @ [StoreSet ''defaultModel'' modelId]\<rparr>"

definition getDefaultModel :: "state \<Rightarrow> string" where
  "getDefaultModel s = store_get (store s) ''defaultModel'' ''claude-sonnet-4-5-20250929''"

section \<open>Workspace binding\<close>

definition workspace_get :: "state \<Rightarrow> string option \<Rightarrow> string option" where
  "workspace_get s threadId =
     (if \<not> truthy threadId then store_get_or_null (store s) ''workspacePath''
      else
        (case threadId of
           None \<Rightarrow> None
         | Some tid \<Rightarrow>
             (case getThread s tid of
                None \<Rightarrow> None
              | Some th \<Rightarrow>
                  (case thread_metadata th of
                     None \<Rightarrow> None
                   | Some meta \<Rightarrow>
                       (if truthy (metadata_workspacePath meta)
                        then metadata_workspacePath meta else None)))))"

definition workspace_set :: "state \<Rightarrow> string option \<Rightarrow> string option \<Rightarrow> string option \<times> state" where
  "workspace_set s threadId newPath =
     (if \<not> truthy threadId then
        (case newPath of
           None \<Rightarrow>
             (newPath, s\<lparr>store := store_delete (store s) ''workspacePath'',
                          trace := trace s @ [StoreDelete ''workspacePath'']\<rparr>)
         | Some p \<Rightarrow>
             if p \<noteq> [] then
               (newPath, s\<lparr>store := store_set (store s) ''workspacePath'' p,
                            trace := trace s @ [StoreSet ''workspacePath'' p]\<rparr>)
             else
               (newPath, s\<lparr>store := store_delete (store s) ''workspacePath'',
                            trace := trace s @ [StoreDelete ''workspacePath'']\<rparr>))
      else
        (case threadId of
           None \<Rightarrow> (None, s)
         | Some tid \<Rightarrow>
             (case getThread s tid of
                None \<Rightarrow> (None, s)
              | Some th \<Rightarrow>
                  let metadata0 = (case thread_metadata th of None \<Rightarrow> Map.empty | Some m \<Rightarrow> m);
                      metadata1 = metadata0(''workspacePath'' \<mapsto> to_json newPath);
                      s1 = updateThread s tid metadata1
                  in if truthy newPath
                     then (case newPath of
                             None \<Rightarrow> (newPath, s1)
                           | Some p \<Rightarrow> (newPath, startWatching s1 tid p))
                     else (newPath, stopWatching s1 tid))))"

section \<open>File system seen by the handlers\<close>

text \<open>
  \<^verbatim>\<open>fs.stat\<close> returns the kind, size and modification time of a path or fails with
  a message. A directory tree is a finite tree: each directory entry that reports
  \<^verbatim>\<open>isDirectory()\<close> carries the outcome of \<^verbatim>\<open>fs.readdir\<close> on it (its entries, or
  a failure), every other entry the outcome of \<^verbatim>\<open>fs.stat\<close> on it.
\<close>

record stats =
  stat_isDirectory :: bool
  stat_size :: nat
  stat_mtime :: string

datatype fsnode =
    File stats
  | StatFails string
  | Dir "(string \<times> fsnode) list"
  | ReaddirFails string

record filesystem =
  cwd :: string
  fs_readdir :: "string \<Rightarrow> string + (string \<times> fsnode) list"
  fs_stat :: "string \<Rightarrow> string + stats"
  fs_readFile_utf8 :: "string \<Rightarrow> string + string"
  fs_readFile_base64 :: "string \<Rightarrow> string + string"

record FileInfo =
  fi_path :: string
  fi_is_dir :: bool
  fi_size :: "nat option"
  fi_modified_at :: "string option"

datatype load_result =
    LoadSuccess (load_files: "FileInfo list") (load_workspacePath: string)
  | LoadFailure (load_error: string) (load_files: "FileInfo list")

datatype read_result =
    ReadSuccess (read_content: string) (read_size: nat) (read_modified_at: string)
  | ReadFailure (read_error: string)

section \<open>Listing a workspace\<close>

text \<open>
  \<^verbatim>\<open>readDir(dirPath, relativePath)\<close> after its \<^verbatim>\<open>fs.readdir\<close> has returned the
  entries: the loop over them. The accumulator holds the array \<^verbatim>\<open>files\<close> and the
  file-system calls made so far; the first component of the result is the message of the
  exception that ended the traversal, if any.
\<close>

fun readDir :: "string \<Rightarrow> string \<Rightarrow> (string \<times> fsnode) list \<Rightarrow> FileInfo list \<times> effect list
                  \<Rightarrow> string option \<times> FileInfo list \<times> effect list" where
  "readDir dirPath relativePath [] acc = (None, acc)"
| "readDir dirPath relativePath ((name, node) # rest) (files, ops) =
     (if startsWith name ''.'' \<or> name = ''node_modules''
      then readDir dirPath relativePath rest (files, ops)
      else
        let fullPath = path_join [dirPath, name];
            relPath = (if relativePath \<noteq> [] then relativePath @ ''/'' @ name else name)
        in case node of
             Dir entries \<Rightarrow>
               (case readDir fullPath relPath entries
                       (files @ [\<lparr>fi_path = ''/'' @ relPath, fi_is_dir = True,
                                   fi_size = None, fi_modified_at = None\<rparr>],
                        ops @ [FsReaddir fullPath]) of
                  (Some e, acc') \<Rightarrow> (Some e, acc')
                | (None, acc') \<Rightarrow> readDir dirPath relativePath rest acc')
           | ReaddirFails e \<Rightarrow>
               (Some e,
                files @ [\<lparr>fi_path = ''/'' @ relPath, fi_is_dir = True,
                           fi_size = None, fi_modified_at = None\<rparr>],
                ops @ [FsReaddir fullPath])
           | File st \<Rightarrow>
               readDir dirPath relativePath rest
                 (files @ [\<lparr>fi_path = ''/'' @ relPath, fi_is_dir = False,
                             fi_size = Some (stat_size st),
                             fi_modified_at = Some (stat_mtime st)\<rparr>],
                  ops @ [FsStat fullPath])
           | StatFails e \<Rightarrow> (Some e, files, ops @ [FsStat fullPath]))"

definition workspace_loadFromDisk :: "filesystem \<Rightarrow> state \<Rightarrow> string \<Rightarrow> load_result \<times> state" where
  "workspace_loadFromDisk fs s threadId =
     (let metadata = parsed_metadata s threadId;
          workspacePath = metadata_workspacePath metadata
      in case workspacePath of
           None \<Rightarrow> (LoadFailure ''No workspace folder linked'' [], s)
         | Some wp \<Rightarrow>
             if wp = [] then (LoadFailure ''No workspace folder linked'' [], s)
             else
               (case fs_readdir fs wp of
                  Inl e \<Rightarrow> (LoadFailure e [], s\<lparr>trace := trace s @ [FsReaddir wp]\<rparr>)
                | Inr entries \<Rightarrow>
                    (case readDir wp [] entries ([], [FsReaddir wp]) of
                       (Some e, files, ops) \<Rightarrow>
                         (LoadFailure e [], s\<lparr>trace := trace s @ ops\<rparr>)
                     | (None, files, ops) \<Rightarrow>
                         (LoadSuccess files wp,
                          startWatching (s\<lparr>trace := trace s @ ops\<rparr>) threadId wp))))"

section \<open>Reading one file\<close>

definition workspace_readFile ::
  "filesystem \<Rightarrow> state \<Rightarrow> string \<Rightarrow> string \<Rightarrow> read_result \<times> state" where
  "workspace_readFile fs s threadId filePath =
     (let metadata = parsed_metadata s threadId;
          workspacePath = metadata_workspacePath metadata
      in case workspacePath of
           None \<Rightarrow> (ReadFailure ''No workspace folder linked'', s)
         | Some wp \<Rightarrow>
             if wp = [] then (ReadFailure ''No workspace folder linked'', s)
             else
               let relativePath = (if startsWith filePath ''/'' then drop 1 filePath else filePath);
                   fullPath = path_join [wp, relativePath];
                   resolvedPath = path_resolve (cwd fs) [fullPath];
                   resolvedWorkspace = path_resolve (cwd fs) [wp]
               in if \<not> startsWith resolvedPath resolvedWorkspace
                  then (ReadFailure ''Access denied: path outside workspace'', s)
                  else
                    (case fs_stat fs fullPath of
                       Inl e \<Rightarrow> (ReadFailure e, s\<lparr>trace := trace s @ [FsStat fullPath]\<rparr>)
                     | Inr st \<Rightarrow>
                         if stat_isDirectory st
                         then (ReadFailure ''Cannot read directory as file'',
                               s\<lparr>trace := trace s @ [FsStat fullPath]\<rparr>)
                         else
                           (case fs_readFile_utf8 fs fullPath of
                              Inl e \<Rightarrow>
                                (ReadFailure e,
                                 s\<lparr>trace := trace s @ [FsStat fullPath, FsReadFile fullPath]\<rparr>)
                            | Inr content \<Rightarrow>
                                (ReadSuccess content (stat_size st) (stat_mtime st),
                                 s\<lparr>trace := trace s @ [FsStat fullPath, FsReadFile fullPath]\<rparr>))))"

definition workspace_readBinaryFile ::
  "filesystem \<Rightarrow> state \<Rightarrow> string \<Rightarrow> string \<Rightarrow> read_result \<times> state" where
  "workspace_readBinaryFile fs s threadId filePath =
     (let metadata = parsed_metadata s threadId;
          workspacePath = metadata_workspacePath metadata
      in case workspacePath of
           None \<Rightarrow> (ReadFailure ''No workspace folder linked'', s)
         | Some wp \<Rightarrow>
             if wp = [] then (ReadFailure ''No workspace folder linked'', s)
             else
               let relativePath = (if startsWith filePath ''/'' then drop 1 filePath else filePath);
                   fullPath = path_join [wp, relativePath];
                   resolvedPath = path_resolve (cwd fs) [fullPath];
                   resolvedWorkspace = path_resolve (cwd fs) [wp]
               in if \<not> startsWith resolvedPath resolvedWorkspace
                  then (ReadFailure ''Access denied: path outside workspace'', s)
                  else
                    (case fs_stat fs fullPath of
                       Inl e \<Rightarrow> (ReadFailure e, s\<lparr>trace := trace s @ [FsStat fullPath]\<rparr>)
                     | Inr st \<Rightarrow>
                         if stat_isDirectory st
                         then (ReadFailure ''Cannot read directory as file'',
                               s\<lparr>trace := trace s @ [FsStat fullPath]\<rparr>)
                         else
                           (case fs_readFile_base64 fs fullPath of
                              Inl e \<Rightarrow>
                                (ReadFailure e,
                                 s\<lparr>trace := trace s @ [FsStat fullPath, FsReadFile fullPath]\<rparr>)
                            | Inr base64 \<Rightarrow>
                                (ReadSuccess base64 (stat_size st) (stat_mtime st),
                                 s\<lparr>trace := trace s @ [FsStat fullPath, FsReadFile fullPath]\<rparr>))))"

section \<open>Notions of the specification and sample inputs\<close>


text \<open>
  The values the read handlers compute before they touch the disk: the path they hand to
  \<^verbatim>\<open>fs.stat\<close> and \<^verbatim>\<open>fs.readFile\<close>, and the outcome of their containment check.
\<close>

definition fullPath_of :: "string \<Rightarrow> string \<Rightarrow> string" where
  "fullPath_of wp filePath =
     path_join [wp, if startsWith filePath ''/'' then drop 1 filePath else filePath]"

definition check_passes :: "filesystem \<Rightarrow> string \<Rightarrow> string \<Rightarrow> bool" where
  "check_passes fs wp filePath =
     startsWith (path_resolve (cwd fs) [fullPath_of wp filePath]) (path_resolve (cwd fs) [wp])"

text \<open>
  Containment as the specification words it: the components of the root are a prefix of
  the components of the path, component by component.
\<close>

definition components :: "string \<Rightarrow> string list" where
  "components p = filter (\<lambda>c. c \<noteq> []) (segments p)"

definition component_prefix :: "string \<Rightarrow> string \<Rightarrow> bool" where
  "component_prefix root p = prefix (components root) (components p)"

text \<open>The metadata object \<^verbatim>\<open>workspace:set\<close> writes back for a session.\<close>

definition rebound_metadata :: "thread \<Rightarrow> string option \<Rightarrow> metadata" where
  "rebound_metadata th newPath =
     (case thread_metadata th of None \<Rightarrow> Map.empty | Some m \<Rightarrow> m)
       (''workspacePath'' \<mapsto> to_json newPath)"

text \<open>A session is bound to the root \<open>wp\<close>: its metadata holds that non-empty path.\<close>

definition bound_to :: "state \<Rightarrow> string \<Rightarrow> string \<Rightarrow> bool" where
  "bound_to s threadId wp =
     (case getThread s threadId of
        None \<Rightarrow> False
      | Some th \<Rightarrow>
          (case thread_metadata th of
             None \<Rightarrow> False
           | Some meta \<Rightarrow> meta ''workspacePath'' = Some (JStr wp) \<and> wp \<noteq> []))"

definition empty_state :: state where
  "empty_state = \<lparr>store = Map.empty, threads = Map.empty, watchers = Map.empty, trace = []\<rparr>"

definition example_thread :: thread where
  "example_thread =
     \<lparr>thread_title = Some ''demo'', thread_status = ''idle'',
      thread_metadata = Some [''workspacePath'' \<mapsto> JStr ''/workspace'']\<rparr>"

definition example_state :: state where
  "example_state =
     \<lparr>store = [''workspacePath'' \<mapsto> ''/legacy''],
      threads = [''t1'' \<mapsto> example_thread],
      watchers = [''t1'' \<mapsto> ''/workspace''], trace = []\<rparr>"

text \<open>
  A sample disk: the workspace \<^verbatim>\<open>/workspace\<close> holds \<^verbatim>\<open>.git\<close>,
  \<^verbatim>\<open>node_modules\<close> and \<^verbatim>\<open>src/a.txt\<close>; next to it lies the directory
  \<^verbatim>\<open>/workspaceX\<close> with the file \<^verbatim>\<open>secret.txt\<close>.
\<close>

definition file_stats :: "nat \<Rightarrow> stats" where
  "file_stats n =
     \<lparr>stat_isDirectory = False, stat_size = n, stat_mtime = ''2026-01-01T00:00:00.000Z''\<rparr>"

definition dir_stats :: stats where
  "dir_stats =
     \<lparr>stat_isDirectory = True, stat_size = 4096, stat_mtime = ''2026-01-01T00:00:00.000Z''\<rparr>"

definition example_entries :: "(string \<times> fsnode) list" where
  "example_entries =
     [(''.git'', Dir [(''HEAD'', File (file_stats 21))]),
      (''node_modules'', Dir [(''left-pad'', Dir [(''index.js'', File (file_stats 97))])]),
      (''src'', Dir [(''a.txt'', File (file_stats 5))])]"

definition example_fs :: filesystem where
  "example_fs =
     \<lparr>cwd = ''/home/user'',
      fs_readdir = (\<lambda>p. if p = ''/workspace'' then Inr example_entries
                          else Inl ''ENOENT: no such file or directory''),
      fs_stat = (\<lambda>p. if p = ''/workspace/src/a.txt'' then Inr (file_stats 5)
                       else if p = ''/workspaceX/secret.txt'' then Inr (file_stats 6)
                       else if p = ''/workspace/src'' then Inr dir_stats
                       else Inl ''ENOENT: no such file or directory''),
      fs_readFile_utf8 = (\<lambda>p. if p = ''/workspace/src/a.txt'' then Inr ''hello''
                                else if p = ''/workspaceX/secret.txt'' then Inr ''secret''
                                else Inl ''ENOENT: no such file or directory''),
      fs_readFile_base64 = (\<lambda>p. if p = ''/workspace/src/a.txt'' then Inr ''aGVsbG8=''
                                  else if p = ''/workspaceX/secret.txt'' then Inr ''c2VjcmV0''
                                  else Inl ''ENOENT: no such file or directory'')\<rparr>"

text \<open>
  The filter of the traversal: a name that begins with \<^verbatim>\<open>.\<close> or is exactly
  \<^verbatim>\<open>node_modules\<close>.
\<close>

definition hidden :: "string \<Rightarrow> bool" where
  "hidden name = (startsWith name ''.'' \<or> name = ''node_modules'')"

text \<open>
  A tree with the filter applied at every level: what is left of a directory once every
  filtered entry, with all below it, is taken away.
\<close>

fun prune :: "(string \<times> fsnode) list \<Rightarrow> (string \<times> fsnode) list" where
  "prune [] = []"
| "prune ((name, node) # rest) =
     (if hidden name then prune rest
      else (name, (case node of Dir entries \<Rightarrow> Dir (prune entries) | _ \<Rightarrow> node)) # prune rest)"

text \<open>
  The first failure a depth-first walk meets among the entries that are not filtered
  out: a directory whose \<^verbatim>\<open>fs.readdir\<close> fails, or another entry whose
  \<^verbatim>\<open>fs.stat\<close> fails.
\<close>

fun first_failure :: "(string \<times> fsnode) list \<Rightarrow> string option" where
  "first_failure [] = None"
| "first_failure ((name, node) # rest) =
     (if hidden name then first_failure rest
      else (case node of
              Dir entries \<Rightarrow>
                (case first_failure entries of Some e \<Rightarrow> Some e | None \<Rightarrow> first_failure rest)
            | ReaddirFails e \<Rightarrow> Some e
            | File st \<Rightarrow> first_failure rest
            | StatFails e \<Rightarrow> Some e))"

text \<open>
  The depth-first listing of a tree whose reads all succeed: for each entry in directory
  order, the entry itself, then (for a directory) the listing of its children, then the
  entries that follow it. \<open>rel\<close> is the path of the directory relative to the root.
\<close>

definition child_path :: "string \<Rightarrow> string \<Rightarrow> string" where
  "child_path rel name = (if rel \<noteq> [] then rel @ ''/'' @ name else name)"

definition dir_entry :: "string \<Rightarrow> string \<Rightarrow> FileInfo" where
  "dir_entry rel name =
     \<lparr>fi_path = ''/'' @ child_path rel name, fi_is_dir = True,
      fi_size = None, fi_modified_at = None\<rparr>"

definition file_entry :: "string \<Rightarrow> string \<Rightarrow> stats \<Rightarrow> FileInfo" where
  "file_entry rel name st =
     \<lparr>fi_path = ''/'' @ child_path rel name, fi_is_dir = False,
      fi_size = Some (stat_size st), fi_modified_at = Some (stat_mtime st)\<rparr>"

fun listing :: "string \<Rightarrow> (string \<times> fsnode) list \<Rightarrow> FileInfo list" where
  "listing rel [] = []"
| "listing rel ((name, node) # rest) =
     (case node of
        Dir entries \<Rightarrow> dir_entry rel name # listing (child_path rel name) entries @ listing rel rest
      | ReaddirFails e \<Rightarrow> dir_entry rel name # listing rel rest
      | File st \<Rightarrow> file_entry rel name st # listing rel rest
      | StatFails e \<Rightarrow> listing rel rest)"

text \<open>
  What every real directory tree satisfies: a name is not empty, holds no \<^verbatim>\<open>/\<close>,
  and names one entry of its directory only.
\<close>

fun wf_entries :: "(string \<times> fsnode) list \<Rightarrow> bool" where
  "wf_entries [] = True"
| "wf_entries ((name, node) # rest) =
     (name \<noteq> [] \<and> CHR ''/'' \<notin> set name \<and> name \<notin> fst ` set rest
      \<and> (case node of Dir entries \<Rightarrow> wf_entries entries | _ \<Rightarrow> True)
      \<and> wf_entries rest)"

text \<open>The path \<open>p\<close> lies strictly below the directory path \<open>dir\<close>.\<close>

definition below :: "string \<Rightarrow> string \<Rightarrow> bool" where
  "below dir p = startsWith p (dir @ ''/'')"

text \<open>Auxiliary notions for the order of a listing.\<close>

definition base :: "string \<Rightarrow> string" where
  "base rel = ''/'' @ (if rel \<noteq> [] then rel @ ''/'' else [])"

definition rooted :: "string \<Rightarrow> string \<Rightarrow> string \<Rightarrow> bool" where
  "rooted b n p = (\<exists>t. p = b @ n @ t \<and> (t = [] \<or> hd t = CHR ''/''))"

fun children_follow :: "FileInfo list \<Rightarrow> bool" where
  "children_follow [] = True"
| "children_follow (f # fs) =
     ((\<forall>d \<in> set fs. fi_is_dir d \<longrightarrow> \<not> below (fi_path d) (fi_path f)) \<and> children_follow fs)"

definition own_entry :: "string \<Rightarrow> string \<Rightarrow> fsnode \<Rightarrow> FileInfo list" where
  "own_entry rel name node =
     (case node of
        Dir entries \<Rightarrow> [dir_entry rel name]
      | ReaddirFails e \<Rightarrow> [dir_entry rel name]
      | File st \<Rightarrow> [file_entry rel name st]
      | StatFails e \<Rightarrow> [])"

definition sub_listing :: "string \<Rightarrow> string \<Rightarrow> fsnode \<Rightarrow> FileInfo list" where
  "sub_listing rel name node =
     (case node of Dir entries \<Rightarrow> listing (child_path rel name) entries | _ \<Rightarrow> [])"

text \<open>
  The file-system calls of a depth-first walk that ends at the first failure: the calls
  on the entries that are not filtered out, in order, up to and including the read that
  fails, and none after it. \<open>failing_read\<close> is that read, and \<open>cut_after_failure\<close> is the
  tree without anything that comes after it in the walk.
\<close>

definition fs_read :: "effect \<Rightarrow> bool" where
  "fs_read op = (case op of FsReaddir p \<Rightarrow> True | FsStat p \<Rightarrow> True | _ \<Rightarrow> False)"

fun walk_ops :: "string \<Rightarrow> (string \<times> fsnode) list \<Rightarrow> effect list" where
  "walk_ops dirPath [] = []"
| "walk_ops dirPath ((name, node) # rest) =
     (if hidden name then walk_ops dirPath rest
      else (case node of
              Dir entries \<Rightarrow>
                FsReaddir (path_join [dirPath, name])
                # walk_ops (path_join [dirPath, name]) entries
                @ (if first_failure entries = None then walk_ops dirPath rest else [])
            | ReaddirFails e \<Rightarrow> [FsReaddir (path_join [dirPath, name])]
            | File st \<Rightarrow> FsStat (path_join [dirPath, name]) # walk_ops dirPath rest
            | StatFails e \<Rightarrow> [FsStat (path_join [dirPath, name])]))"

fun failing_read :: "string \<Rightarrow> (string \<times> fsnode) list \<Rightarrow> effect option" where
  "failing_read dirPath [] = None"
| "failing_read dirPath ((name, node) # rest) =
     (if hidden name then failing_read dirPath rest
      else (case node of
              Dir entries \<Rightarrow>
                (case failing_read (path_join [dirPath, name]) entries of
                   Some op \<Rightarrow> Some op
                 | None \<Rightarrow> failing_read dirPath rest)
            | ReaddirFails e \<Rightarrow> Some (FsReaddir (path_join [dirPath, name]))
            | File st \<Rightarrow> failing_read dirPath rest
            | StatFails e \<Rightarrow> Some (FsStat (path_join [dirPath, name]))))"

fun cut_after_failure :: "(string \<times> fsnode) list \<Rightarrow> (string \<times> fsnode) list" where
  "cut_after_failure [] = []"
| "cut_after_failure ((name, node) # rest) =
     (if hidden name then (name, node) # cut_after_failure rest
      else (case node of
              Dir entries \<Rightarrow>
                (if first_failure entries = None then (name, node) # cut_after_failure rest
                 else [(name, Dir (cut_after_failure entries))])
            | ReaddirFails e \<Rightarrow> [(name, node)]
            | File st \<Rightarrow> (name, node) # cut_after_failure rest
            | StatFails e \<Rightarrow> [(name, node)]))"

text \<open>
  A second sample disk: the workspace holds \<^verbatim>\<open>a.txt\<close>, \<^verbatim>\<open>z.txt\<close> and
  \<^verbatim>\<open>src\<close>, and in \<^verbatim>\<open>src\<close> the directory \<^verbatim>\<open>locked\<close> cannot be read.
\<close>

definition locked_entries :: "(string \<times> fsnode) list" where
  "locked_entries =
     [(''a.txt'', File (file_stats 1)),
      (''src'', Dir [(''ok.txt'', File (file_stats 2)),
                     (''locked'', ReaddirFails ''EACCES: permission denied, scandir /workspace/src/locked''),
                     (''later.txt'', File (file_stats 3))]),
      (''z.txt'', File (file_stats 4))]"

definition locked_fs :: filesystem where
  "locked_fs =
     example_fs\<lparr>fs_readdir := (\<lambda>p. if p = ''/workspace'' then Inr locked_entries
                                     else Inl ''ENOENT: no such file or directory'')\<rparr>"

section \<open>Model registry\<close>

text \<open>
  C6: \<^verbatim>\<open>models:list\<close> returns the catalog entry by entry, in order, with every field
  as in the catalog except \<^verbatim>\<open>available\<close>, which is \<^verbatim>\<open>hasApiKey\<close> of the entry's
  provider whatever flag the catalog stores; \<^verbatim>\<open>models:listProviders\<close> returns the
  providers in order with \<^verbatim>\<open>hasApiKey\<close> of their identifier. Both are functions of
  the constant catalog and the credential predicate alone: they take and return no state,
  so the catalog is the same before and after.
\<close>

theorem models_list_decorates_catalog:
  "map available (models_list hasApiKey) = map (\<lambda>m. hasApiKey (provider m)) AVAILABLE_MODELS
   \<and> map model_id (models_list hasApiKey) = map model_id AVAILABLE_MODELS
   \<and> map model_name (models_list hasApiKey) = map model_name AVAILABLE_MODELS
   \<and> map provider (models_list hasApiKey) = map provider AVAILABLE_MODELS
   \<and> map model (models_list hasApiKey) = map model AVAILABLE_MODELS
   \<and> map description (models_list hasApiKey) = map description AVAILABLE_MODELS
   \<and> map provider_hasApiKey (models_listProviders hasApiKey)
       = map (\<lambda>p. hasApiKey (provider_id p)) PROVIDERS
   \<and> map provider_id (models_listProviders hasApiKey) = map provider_id PROVIDERS
   \<and> map provider_name (models_listProviders hasApiKey) = map provider_name PROVIDERS"
  by (simp add: models_list_def models_listProviders_def comp_def)

text \<open>
  C7: while the settings store has no \<^verbatim>\<open>defaultModel\<close> key, both the handler
  \<^verbatim>\<open>models:getDefault\<close> and the exported \<^verbatim>\<open>getDefaultModel\<close> return
  \<^verbatim>\<open>claude-sonnet-4-5-20250929\<close>; after \<^verbatim>\<open>models:setDefault\<close> with any model
  identifier both return that identifier.
\<close>

theorem default_model_roundtrip:
  "(store s ''defaultModel'' = None \<longrightarrow>
      getDefaultModel s = ''claude-sonnet-4-5-20250929'' \<and>
      models_getDefault s = ''claude-sonnet-4-5-20250929'')
   \<and> getDefaultModel (models_setDefault s modelId) = modelId
   \<and> models_getDefault (models_setDefault s modelId) = modelId"
  by (simp add: getDefaultModel_def models_getDefault_def models_setDefault_def
      store_get_def store_set_def)

theorem default_model_roundtrip_witness:
  "store empty_state ''defaultModel'' = None
   \<and> getDefaultModel empty_state = ''claude-sonnet-4-5-20250929''
   \<and> models_getDefault empty_state = ''claude-sonnet-4-5-20250929''
   \<and> getDefaultModel (models_setDefault empty_state ''gpt-5.2'') = ''gpt-5.2''
   \<and> models_getDefault (models_setDefault empty_state ''gpt-5.2'') = ''gpt-5.2''"
  using default_model_roundtrip [of empty_state "''gpt-5.2''"]
  by (simp add: empty_state_def)

section \<open>Sessions without a workspace\<close>




section \<open>Workspace binding registry\<close>

lemma workspace_set_session_store:
  "threadId \<noteq> [] \<Longrightarrow> store (snd (workspace_set s (Some threadId) newPath)) = store s"
  by (simp add: workspace_set_def truthy_def updateThread_def startWatching_def
      stopWatching_def Let_def split: option.splits)

lemma workspace_set_global_frame:
  "\<not> truthy g \<Longrightarrow>
     threads (snd (workspace_set s g newPath)) = threads s
     \<and> watchers (snd (workspace_set s g newPath)) = watchers s"
  by (simp add: workspace_set_def split: option.splits)

lemma workspace_get_session_reads_threads:
  "threadId \<noteq> [] \<Longrightarrow> threads s' = threads s \<Longrightarrow>
     workspace_get s' (Some threadId) = workspace_get s (Some threadId)"
  by (simp add: workspace_get_def truthy_def getThread_def)

lemma workspace_get_global_reads_store:
  "\<not> truthy g \<Longrightarrow> store s' = store s \<Longrightarrow> workspace_get s' g = workspace_get s g"
  by (simp add: workspace_get_def)

text \<open>
  C8: a session identifier is a non-empty string \<open>threadId\<close>; a request without one
  carries \<open>g\<close>, which is absent or empty, and is served from the global slot. Setting or
  clearing the binding of a session leaves what the global slot yields unchanged; setting
  or clearing the global slot leaves the binding read for every session, the session
  store and the watches unchanged; what \<^verbatim>\<open>workspace:get\<close> returns for a session does
  not depend on the settings store at all, so it never falls back to the global slot; and
  the global slot holds one value, the last non-empty path set, or nothing after a clear.
\<close>

theorem global_slot_independent:
  assumes "threadId \<noteq> []" and "\<not> truthy g"
  shows "workspace_get (snd (workspace_set s (Some threadId) newPath)) g = workspace_get s g
       \<and> workspace_get (snd (workspace_set s g newPath)) (Some threadId)
           = workspace_get s (Some threadId)
       \<and> threads (snd (workspace_set s g newPath)) = threads s
       \<and> watchers (snd (workspace_set s g newPath)) = watchers s
       \<and> workspace_get (s\<lparr>store := st\<rparr>) (Some threadId) = workspace_get s (Some threadId)
       \<and> workspace_get (snd (workspace_set s g newPath)) g
           = (if truthy newPath then newPath else None)"
proof -
  have a: "workspace_get (snd (workspace_set s (Some threadId) newPath)) g = workspace_get s g"
    using assms by (intro workspace_get_global_reads_store workspace_set_session_store)
  have b: "workspace_get (snd (workspace_set s g newPath)) (Some threadId)
           = workspace_get s (Some threadId)"
    using assms
    by (intro workspace_get_session_reads_threads) (simp_all add: workspace_set_global_frame)
  have c: "workspace_get (s\<lparr>store := st\<rparr>) (Some threadId) = workspace_get s (Some threadId)"
    using assms by (intro workspace_get_session_reads_threads) simp_all
  have d: "workspace_get (snd (workspace_set s g newPath)) g
           = (if truthy newPath then newPath else None)"
    using assms
    by (auto simp: workspace_set_def workspace_get_def truthy_def store_get_or_null_def
        store_set_def store_delete_def split: option.splits)
  show ?thesis
    using a b c d workspace_set_global_frame [OF assms(2), of s newPath] by simp
qed

theorem global_slot_independent_witness:
  "''t1'' \<noteq> [] \<and> \<not> truthy None
   \<and> workspace_get example_state None = Some ''/legacy''
   \<and> workspace_get example_state (Some ''t1'') = Some ''/workspace''
   \<and> workspace_get (snd (workspace_set example_state (Some ''t1'') (Some ''/other''))) None
        = Some ''/legacy''
   \<and> workspace_get (snd (workspace_set example_state None (Some ''/other''))) (Some ''t1'')
        = Some ''/workspace''
   \<and> workspace_get (snd (workspace_set example_state None (Some ''/other''))) None
        = Some ''/other''"
proof -
  have h1: "''t1'' \<noteq> []" by simp
  have h2: "\<not> truthy None" by (simp add: truthy_def)
  have g: "workspace_get example_state None = Some ''/legacy''"
    by (simp add: workspace_get_def truthy_def store_get_or_null_def example_state_def)
  have t: "workspace_get example_state (Some ''t1'') = Some ''/workspace''"
    by (simp add: workspace_get_def truthy_def getThread_def metadata_workspacePath_def
        example_state_def example_thread_def)
  show ?thesis
    using h2 g t
      global_slot_independent [OF h1 h2, of example_state "Some ''/other''" "Map.empty"]
      global_slot_independent [OF h1 h2, of example_state "None" "Map.empty"]
    by (simp add: truthy_def)
qed

lemma workspace_set_session:
  assumes "threadId \<noteq> []" and "getThread s threadId = Some th"
  shows "workspace_set s (Some threadId) newPath =
           (newPath,
            case newPath of
              None \<Rightarrow> stopWatching (updateThread s threadId (rebound_metadata th newPath)) threadId
            | Some p \<Rightarrow>
                if p \<noteq> [] then startWatching (updateThread s threadId (rebound_metadata th newPath)) threadId p
                else stopWatching (updateThread s threadId (rebound_metadata th newPath)) threadId)"
  using assms
  by (simp add: workspace_set_def truthy_def rebound_metadata_def Let_def split: option.splits)

lemma workspace_get_after_update:
  assumes "threadId \<noteq> []" and "getThread s threadId = Some th"
    and "threads s' = threads (updateThread s threadId (rebound_metadata th newPath))"
  shows "workspace_get s' (Some threadId) = (if truthy newPath then newPath else None)"
  using assms
  by (auto simp: workspace_get_def truthy_def getThread_def updateThread_def
      rebound_metadata_def metadata_workspacePath_def to_json_def split: option.splits)

text \<open>
  C9, as amended: for an existing session (a non-empty identifier the session store
  knows), \<^verbatim>\<open>workspace:set\<close> returns the path it was given and first writes the
  metadata with \<^verbatim>\<open>workspacePath\<close> set to it, every other key kept, and then calls the
  watcher: with a non-empty path it starts (or replaces) the watch for that session on
  that path, and the binding then reads back as that path; with null or the empty string
  it stops the watch for that session, and the binding then reads back as none. The two
  effects are the only ones and always come in that order.
\<close>

theorem set_binding_then_watch:
  assumes "threadId \<noteq> []" and "getThread s threadId = Some th"
  shows "fst (workspace_set s (Some threadId) newPath) = newPath
       \<and> (truthy newPath \<longrightarrow>
            (\<exists>p. newPath = Some p
               \<and> trace (snd (workspace_set s (Some threadId) newPath))
                   = trace s @ [UpdateThread threadId (rebound_metadata th newPath),
                                StartWatching threadId p]
               \<and> watchers (snd (workspace_set s (Some threadId) newPath)) threadId = Some p
               \<and> workspace_get (snd (workspace_set s (Some threadId) newPath)) (Some threadId)
                   = Some p))
       \<and> (\<not> truthy newPath \<longrightarrow>
             trace (snd (workspace_set s (Some threadId) newPath))
               = trace s @ [UpdateThread threadId (rebound_metadata th newPath),
                            StopWatching threadId]
             \<and> watchers (snd (workspace_set s (Some threadId) newPath)) threadId = None
             \<and> workspace_get (snd (workspace_set s (Some threadId) newPath)) (Some threadId)
                 = None)
       \<and> threads (snd (workspace_set s (Some threadId) newPath))
           = (threads s)(threadId \<mapsto> th\<lparr>thread_metadata := Some (rebound_metadata th newPath)\<rparr>)"
proof -
  note ws = workspace_set_session [OF assms, of newPath]
  have thr: "threads (snd (workspace_set s (Some threadId) newPath))
          = threads (updateThread s threadId (rebound_metadata th newPath))"
    by (simp add: ws startWatching_def stopWatching_def split: option.splits)
  note get = workspace_get_after_update [OF assms thr]
  have upd: "threads (updateThread s threadId (rebound_metadata th newPath))
          = (threads s)(threadId \<mapsto> th\<lparr>thread_metadata := Some (rebound_metadata th newPath)\<rparr>)"
    using assms(2) by (simp add: updateThread_def getThread_def)
  have tr: "trace (snd (workspace_set s (Some threadId) newPath))
          = trace s @ [UpdateThread threadId (rebound_metadata th newPath),
                       (case newPath of None \<Rightarrow> StopWatching threadId
                        | Some p \<Rightarrow> if p \<noteq> [] then StartWatching threadId p
                                    else StopWatching threadId)]"
    by (simp add: ws startWatching_def stopWatching_def updateThread_def split: option.splits)
  have wa: "watchers (snd (workspace_set s (Some threadId) newPath)) threadId
          = (if truthy newPath then newPath else None)"
    by (simp add: ws startWatching_def stopWatching_def updateThread_def truthy_def
        split: option.splits)
  have rv: "fst (workspace_set s (Some threadId) newPath) = newPath"
    by (simp add: ws)
  show ?thesis
  proof (cases "truthy newPath")
    case True
    then obtain p where p: "newPath = Some p" "p \<noteq> []"
      by (auto simp: truthy_def split: option.splits)
    show ?thesis
      unfolding tr wa rv get thr upd using True p by simp
  next
    case False
    show ?thesis
      unfolding tr wa rv get thr upd using False
      by (auto simp: truthy_def split: option.splits)
  qed
qed

theorem set_binding_then_watch_witness:
  "''t1'' \<noteq> [] \<and> getThread example_state ''t1'' = Some example_thread
   \<and> truthy (Some ''/other'') \<and> \<not> truthy None
   \<and> trace (snd (workspace_set example_state (Some ''t1'') (Some ''/other'')))
        = [UpdateThread ''t1'' (rebound_metadata example_thread (Some ''/other'')),
           StartWatching ''t1'' ''/other'']
   \<and> watchers (snd (workspace_set example_state (Some ''t1'') (Some ''/other''))) ''t1''
        = Some ''/other''
   \<and> workspace_get (snd (workspace_set example_state (Some ''t1'') (Some ''/other''))) (Some ''t1'')
        = Some ''/other''
   \<and> trace (snd (workspace_set example_state (Some ''t1'') None))
        = [UpdateThread ''t1'' (rebound_metadata example_thread None), StopWatching ''t1'']
   \<and> watchers (snd (workspace_set example_state (Some ''t1'') None)) ''t1'' = None
   \<and> workspace_get (snd (workspace_set example_state (Some ''t1'') None)) (Some ''t1'') = None"
proof -
  have h1: "''t1'' \<noteq> []" by simp
  have h2: "getThread example_state ''t1'' = Some example_thread"
    by (simp add: getThread_def example_state_def)
  have t: "truthy (Some ''/other'')" "\<not> truthy None" by (simp_all add: truthy_def)
  have e: "trace example_state = []" by (simp add: example_state_def)
  show ?thesis
    using h2 t e
      set_binding_then_watch [OF h1 h2, of "Some ''/other''"]
      set_binding_then_watch [OF h1 h2, of None]
    by simp
qed

text \<open>
  The claim as first stated fails at a non-null path: the empty string is written into
  the metadata and the watch of the session is stopped, not started.
\<close>

theorem set_empty_path_stops_watch:
  "getThread example_state ''t1'' = Some example_thread
   \<and> watchers example_state ''t1'' = Some ''/workspace''
   \<and> fst (workspace_set example_state (Some ''t1'') (Some '''')) = Some ''''
   \<and> last (trace (snd (workspace_set example_state (Some ''t1'') (Some ''''))))
        = StopWatching ''t1''
   \<and> watchers (snd (workspace_set example_state (Some ''t1'') (Some ''''))) ''t1'' = None"
  by (simp add: workspace_set_def truthy_def getThread_def example_state_def
      updateThread_def stopWatching_def Let_def)


text \<open>
  C10: \<^verbatim>\<open>workspace:set\<close> for a session identifier (a non-empty string; the handler
  serves an empty one from the global slot, like an absent one) that the session store
  does not know returns null and returns the state as it was: no binding is persisted,
  the settings store with the global slot is untouched, no watch is started or stopped,
  and the trace records no effect.
\<close>

theorem set_unknown_session_no_effect:
  assumes "threadId \<noteq> []" and "getThread s threadId = None"
  shows "workspace_set s (Some threadId) newPath = (None, s)"
  using assms by (simp add: workspace_set_def truthy_def)

theorem set_unknown_session_no_effect_witness:
  "''t2'' \<noteq> [] \<and> getThread example_state ''t2'' = None
   \<and> workspace_set example_state (Some ''t2'') (Some ''/other'') = (None, example_state)"
proof -
  have h1: "''t2'' \<noteq> []" by simp
  have h2: "getThread example_state ''t2'' = None"
    by (simp add: getThread_def example_state_def)
  show ?thesis
    using h2 set_unknown_session_no_effect [OF h1 h2, of "Some ''/other''"] by simp
qed

section \<open>Reading a file of the workspace\<close>

lemma bound_workspacePath:
  "bound_to s threadId wp \<Longrightarrow>
     metadata_workspacePath (parsed_metadata s threadId) = Some wp \<and> wp \<noteq> []"
  by (auto simp: bound_to_def parsed_metadata_def metadata_workspacePath_def
      split: option.splits)

lemma example_bound: "bound_to example_state ''t1'' ''/workspace''"
  by (simp add: bound_to_def getThread_def example_state_def example_thread_def)

lemma ex_paths:
  "fullPath_of ''/workspace'' ''/src/a.txt'' = ''/workspace/src/a.txt''"
  "fullPath_of ''/workspace'' ''/src'' = ''/workspace/src''"
  "fullPath_of ''/workspace'' ''/../../etc/passwd'' = ''/etc/passwd''"
  "fullPath_of ''/workspace'' ''/../workspaceX/secret.txt'' = ''/workspaceX/secret.txt''"
  by (simp_all add: fullPath_of_def startsWith_def path_join_def normalize_def normalizeString_def)

lemma ex_checks:
  "check_passes example_fs ''/workspace'' ''/src/a.txt''"
  "check_passes example_fs ''/workspace'' ''/src''"
  "\<not> check_passes example_fs ''/workspace'' ''/../../etc/passwd''"
  "check_passes example_fs ''/workspace'' ''/../workspaceX/secret.txt''"
  by (simp_all add: check_passes_def ex_paths startsWith_def path_resolve_def normalizeString_def)


text \<open>
  What \<^verbatim>\<open>workspace:readFile\<close> does for a bound session, by the outcome of the test it
  runs first: when the test fails the answer is the access-denied failure and the state
  is returned as it was; when it passes, \<^verbatim>\<open>fs.stat\<close> is called on the joined path, a
  directory there gives \<^verbatim>\<open>Cannot read directory as file\<close> with no read, and
  otherwise the content read is returned with the size and modification time.
\<close>

lemma readFile_bound_cases:
  assumes "bound_to s threadId wp"
  shows "(\<not> check_passes fs wp filePath \<longrightarrow>
            workspace_readFile fs s threadId filePath
              = (ReadFailure ''Access denied: path outside workspace'', s))
       \<and> (check_passes fs wp filePath \<longrightarrow>
            workspace_readFile fs s threadId filePath
              = (case fs_stat fs (fullPath_of wp filePath) of
                   Inl e \<Rightarrow>
                     (ReadFailure e, s\<lparr>trace := trace s @ [FsStat (fullPath_of wp filePath)]\<rparr>)
                 | Inr st \<Rightarrow>
                     if stat_isDirectory st then
                       (ReadFailure ''Cannot read directory as file'',
                        s\<lparr>trace := trace s @ [FsStat (fullPath_of wp filePath)]\<rparr>)
                     else
                       (case fs_readFile_utf8 fs (fullPath_of wp filePath) of
                          Inl e \<Rightarrow> ReadFailure e
                        | Inr content \<Rightarrow> ReadSuccess content (stat_size st) (stat_mtime st),
                        s\<lparr>trace := trace s @ [FsStat (fullPath_of wp filePath),
                                               FsReadFile (fullPath_of wp filePath)]\<rparr>)))"
  using bound_workspacePath [OF assms]
  by (simp add: workspace_readFile_def check_passes_def fullPath_of_def Let_def
      split: sum.splits)

lemma readFile_bound_cases_examples:
  "bound_to example_state ''t1'' ''/workspace''
   \<and> \<not> check_passes example_fs ''/workspace'' ''/../../etc/passwd''
   \<and> workspace_readFile example_fs example_state ''t1'' ''/../../etc/passwd''
        = (ReadFailure ''Access denied: path outside workspace'', example_state)
   \<and> check_passes example_fs ''/workspace'' ''/src''
   \<and> workspace_readFile example_fs example_state ''t1'' ''/src''
        = (ReadFailure ''Cannot read directory as file'',
           example_state\<lparr>trace := [FsStat ''/workspace/src'']\<rparr>)
   \<and> check_passes example_fs ''/workspace'' ''/src/a.txt''
   \<and> workspace_readFile example_fs example_state ''t1'' ''/src/a.txt''
        = (ReadSuccess ''hello'' 5 ''2026-01-01T00:00:00.000Z'',
           example_state\<lparr>trace := [FsStat ''/workspace/src/a.txt'',
                                     FsReadFile ''/workspace/src/a.txt'']\<rparr>)"
proof -
  have e: "trace example_state = []" by (simp add: example_state_def)
  show ?thesis
    using example_bound ex_checks e
      readFile_bound_cases [OF example_bound, of example_fs "''/../../etc/passwd''"]
      readFile_bound_cases [OF example_bound, of example_fs "''/src''"]
      readFile_bound_cases [OF example_bound, of example_fs "''/src/a.txt''"]
    by (simp add: ex_paths example_fs_def file_stats_def dir_stats_def)
qed

lemma read_handlers_bound:
  assumes "bound_to s threadId wp" and "check_passes fs wp filePath"
    and "fs_stat fs (fullPath_of wp filePath) = Inr st" and "\<not> stat_isDirectory st"
    and "fs_readFile_utf8 fs (fullPath_of wp filePath) = Inr text"
    and "fs_readFile_base64 fs (fullPath_of wp filePath) = Inr b64"
  shows "workspace_readFile fs s threadId filePath
           = (ReadSuccess text (stat_size st) (stat_mtime st),
              s\<lparr>trace := trace s @ [FsStat (fullPath_of wp filePath),
                                     FsReadFile (fullPath_of wp filePath)]\<rparr>)"
    and "workspace_readBinaryFile fs s threadId filePath
           = (ReadSuccess b64 (stat_size st) (stat_mtime st),
              s\<lparr>trace := trace s @ [FsStat (fullPath_of wp filePath),
                                     FsReadFile (fullPath_of wp filePath)]\<rparr>)"
  using bound_workspacePath [OF assms(1)] assms(2-)
  by (simp_all add: workspace_readFile_def workspace_readBinaryFile_def check_passes_def
      fullPath_of_def Let_def)

text \<open>
  C1 at the sample disk: the session \<^verbatim>\<open>t1\<close> is bound to \<^verbatim>\<open>/workspace\<close> and the
  virtual path \<^verbatim>\<open>/../workspaceX/secret.txt\<close> normalizes to
  \<^verbatim>\<open>/workspaceX/secret.txt\<close>, which does not have the root as a component-wise
  prefix. Both read handlers compare the two paths as strings, pass the check and return
  the content of the file in the sibling directory.
\<close>

theorem sibling_directory_not_rejected:
  "bound_to example_state ''t1'' ''/workspace''
   \<and> fullPath_of ''/workspace'' ''/../workspaceX/secret.txt'' = ''/workspaceX/secret.txt''
   \<and> \<not> component_prefix ''/workspace'' ''/workspaceX/secret.txt''
   \<and> workspace_readFile example_fs example_state ''t1'' ''/../workspaceX/secret.txt''
        = (ReadSuccess ''secret'' 6 ''2026-01-01T00:00:00.000Z'',
           example_state\<lparr>trace := [FsStat ''/workspaceX/secret.txt'',
                                     FsReadFile ''/workspaceX/secret.txt'']\<rparr>)
   \<and> workspace_readBinaryFile example_fs example_state ''t1'' ''/../workspaceX/secret.txt''
        = (ReadSuccess ''c2VjcmV0'' 6 ''2026-01-01T00:00:00.000Z'',
           example_state\<lparr>trace := [FsStat ''/workspaceX/secret.txt'',
                                     FsReadFile ''/workspaceX/secret.txt'']\<rparr>)"
proof -
  have e: "trace example_state = []" by (simp add: example_state_def)
  have st: "fs_stat example_fs ''/workspaceX/secret.txt'' = Inr (file_stats 6)"
    and rd: "fs_readFile_utf8 example_fs ''/workspaceX/secret.txt'' = Inr ''secret''"
    and rb: "fs_readFile_base64 example_fs ''/workspaceX/secret.txt'' = Inr ''c2VjcmV0''"
    by (simp_all add: example_fs_def)
  have nd: "\<not> stat_isDirectory (file_stats 6)" by (simp add: file_stats_def)
  have np: "\<not> component_prefix ''/workspace'' ''/workspaceX/secret.txt''"
    by (simp add: component_prefix_def components_def)
  show ?thesis
    using example_bound np e
      read_handlers_bound [OF example_bound ex_checks(4), of "file_stats 6" "''secret''" "''c2VjcmV0''"]
    by (simp add: ex_paths st rd rb nd file_stats_def)
qed

text \<open>
  C5 at the sample disk: the test \<^verbatim>\<open>workspace:readFile\<close> runs before it touches the
  disk compares the resolved path with the resolved root as strings, which is not
  containment in the sandbox. For the session \<^verbatim>\<open>t1\<close> bound to \<^verbatim>\<open>/workspace\<close> and
  the virtual path \<^verbatim>\<open>/../workspaceX/secret.txt\<close>, the joined path does not have the
  root as a component-wise prefix, yet the handler goes on to call \<^verbatim>\<open>fs.stat\<close> and
  \<^verbatim>\<open>fs.readFile\<close> on it and returns the content: no containment check has guarded
  the access to the disk.
\<close>

theorem readFile_reads_outside_root:
  "bound_to example_state ''t1'' ''/workspace''
   \<and> \<not> component_prefix ''/workspace''
         (fullPath_of ''/workspace'' ''/../workspaceX/secret.txt'')
   \<and> fst (workspace_readFile example_fs example_state ''t1'' ''/../workspaceX/secret.txt'')
        = ReadSuccess ''secret'' 6 ''2026-01-01T00:00:00.000Z''
   \<and> trace (snd (workspace_readFile example_fs example_state ''t1''
                    ''/../workspaceX/secret.txt''))
        = [FsStat ''/workspaceX/secret.txt'', FsReadFile ''/workspaceX/secret.txt'']"
proof -
  have e: "trace example_state = []" by (simp add: example_state_def)
  have st: "fs_stat example_fs ''/workspaceX/secret.txt'' = Inr (file_stats 6)"
    and rd: "fs_readFile_utf8 example_fs ''/workspaceX/secret.txt'' = Inr ''secret''"
    and rb: "fs_readFile_base64 example_fs ''/workspaceX/secret.txt'' = Inr ''c2VjcmV0''"
    by (simp_all add: example_fs_def)
  have nd: "\<not> stat_isDirectory (file_stats 6)" by (simp add: file_stats_def)
  have np: "\<not> component_prefix ''/workspace'' ''/workspaceX/secret.txt''"
    by (simp add: component_prefix_def components_def)
  show ?thesis
    using example_bound np e
      read_handlers_bound(1) [OF example_bound ex_checks(4), of "file_stats 6" "''secret''" "''c2VjcmV0''"]
    by (simp add: ex_paths st rd rb nd file_stats_def)
qed

section \<open>Listing the workspace\<close>

lemma readDir_hidden:
  "hidden name \<Longrightarrow> readDir d r ((name, node) # rest) acc = readDir d r rest acc"
  by (cases acc) (simp add: hidden_def)

lemma readDir_File:
  "\<not> hidden name \<Longrightarrow>
     readDir d r ((name, File st) # rest) (files, ops)
       = readDir d r rest (files @ [file_entry r name st], ops @ [FsStat (path_join [d, name])])"
  by (simp add: hidden_def file_entry_def child_path_def Let_def)

lemma readDir_StatFails:
  "\<not> hidden name \<Longrightarrow>
     readDir d r ((name, StatFails e) # rest) (files, ops)
       = (Some e, files, ops @ [FsStat (path_join [d, name])])"
  by (simp add: hidden_def Let_def)

lemma readDir_ReaddirFails:
  "\<not> hidden name \<Longrightarrow>
     readDir d r ((name, ReaddirFails e) # rest) (files, ops)
       = (Some e, files @ [dir_entry r name], ops @ [FsReaddir (path_join [d, name])])"
  by (simp add: hidden_def dir_entry_def child_path_def Let_def)

lemma readDir_Dir:
  "\<not> hidden name \<Longrightarrow>
     readDir d r ((name, Dir entries) # rest) (files, ops)
       = (case readDir (path_join [d, name]) (child_path r name) entries
                 (files @ [dir_entry r name], ops @ [FsReaddir (path_join [d, name])]) of
            (Some e, acc') \<Rightarrow> (Some e, acc')
          | (None, acc') \<Rightarrow> readDir d r rest acc')"
  by (simp add: hidden_def dir_entry_def child_path_def Let_def)

lemmas readDir_cases =
  readDir_hidden readDir_File readDir_StatFails readDir_ReaddirFails readDir_Dir

lemma readDir_prune: "readDir d r (prune es) acc = readDir d r es acc"
proof (induction es arbitrary: d r acc rule: prune.induct)
  case 1
  show ?case by simp
next
  case (2 name node rest)
  obtain files ops where acc: "acc = (files, ops)" by (cases acc)
  show ?case
  proof (cases "hidden name")
    case True
    then show ?thesis using 2(1) by (simp add: readDir_hidden del: readDir.simps)
  next
    case False
    note rest = 2(3)[OF False]
    show ?thesis
    proof (cases node)
      case (Dir entries)
      show ?thesis
        using False Dir 2(2)[OF False Dir] rest
        by (simp add: acc readDir_Dir del: readDir.simps split: prod.splits option.splits)
    qed (use False rest in \<open>simp_all add: acc readDir_cases del: readDir.simps\<close>)
  qed
qed

lemma readDir_failure: "fst (readDir d r es acc) = first_failure es"
proof (induction es arbitrary: d r acc rule: prune.induct)
  case 1
  show ?case by simp
next
  case (2 name node rest)
  obtain files ops where acc: "acc = (files, ops)" by (cases acc)
  show ?case
  proof (cases "hidden name")
    case True
    then show ?thesis using 2(1) by (simp add: readDir_hidden del: readDir.simps)
  next
    case False
    note rest = 2(3)[OF False]
    show ?thesis
    proof (cases node)
      case (Dir entries)
      have "fst (readDir (path_join [d, name]) (child_path r name) entries
                 (files @ [dir_entry r name], ops @ [FsReaddir (path_join [d, name])]))
            = first_failure entries"
        by (rule 2(2)[OF False Dir])
      then show ?thesis
        using False Dir rest
        by (auto simp: acc readDir_Dir simp del: readDir.simps split: prod.splits option.splits)
    qed (use False rest in \<open>simp_all add: acc readDir_cases del: readDir.simps\<close>)
  qed
qed

lemma readDir_files:
  "first_failure es = None \<Longrightarrow>
     fst (snd (readDir d r es (files, ops))) = files @ listing r (prune es)"
proof (induction es arbitrary: d r files ops rule: prune.induct)
  case 1
  show ?case by simp
next
  case (2 name node rest)
  show ?case
  proof (cases "hidden name")
    case True
    then show ?thesis using 2(1) 2(4) by (simp add: readDir_hidden del: readDir.simps)
  next
    case False
    note rest = 2(3)[OF False]
    show ?thesis
    proof (cases node)
      case (Dir entries)
      from 2(4) False Dir have ff: "first_failure entries = None" "first_failure rest = None"
        by (auto split: option.splits)
      let ?r1 = "readDir (path_join [d, name]) (child_path r name) entries
                 (files @ [dir_entry r name], ops @ [FsReaddir (path_join [d, name])])"
      have e1: "fst ?r1 = None" by (simp add: readDir_failure ff del: readDir.simps)
      have f1: "fst (snd ?r1) = (files @ [dir_entry r name]) @ listing (child_path r name) (prune entries)"
        by (rule 2(2)[OF False Dir ff(1)])
      obtain ops1 where r1: "?r1 = (None, (files @ [dir_entry r name]) @ listing (child_path r name) (prune entries), ops1)"
        using e1 f1 by (metis prod.collapse)
      show ?thesis
        using False Dir rest[OF ff(2)]
        by (simp add: readDir_Dir r1 del: readDir.simps)
    next
      case (File st)
      then show ?thesis
        using False rest 2(4) by (simp add: readDir_File del: readDir.simps)
    qed (use False 2(4) in \<open>simp_all\<close>)
  qed
qed

lemma segments_nonempty: "segments p \<noteq> []"
  by (induction p) (auto split: list.splits)

lemma segments_append_slash: "segments (a @ CHR ''/'' # b) = segments a @ segments b"
proof (induction a)
  case Nil
  show ?case by simp
next
  case (Cons c a)
  obtain s0 ss0 where s: "segments a = s0 # ss0"
    using segments_nonempty [of a] by (cases "segments a") auto
  show ?case using Cons s by simp
qed

lemma segments_no_slash: "CHR ''/'' \<notin> set n \<Longrightarrow> segments n = [n]"
  by (induction n) auto

lemma components_append_slash: "components (a @ CHR ''/'' # b) = components a @ components b"
  by (simp add: components_def segments_append_slash)

lemma components_name: "CHR ''/'' \<notin> set n \<Longrightarrow> set (components n) \<subseteq> {n}"
  by (simp add: components_def segments_no_slash)

lemma components_leading_slash: "components (CHR ''/'' # p) = components p"
  using components_append_slash [of "[]" p] by (simp add: components_def)

lemma components_child_path':
  assumes "CHR ''/'' \<notin> set n"
  shows "set (components (child_path rel n)) \<subseteq> set (components rel) \<union> {n}"
proof (cases "rel = []")
  case True
  then show ?thesis using components_name [OF assms] by (auto simp: child_path_def)
next
  case False
  then have "components (child_path rel n) = components rel @ components n"
    by (simp add: child_path_def components_append_slash)
  then show ?thesis using components_name [OF assms] by auto
qed

lemma components_child_path:
  "CHR ''/'' \<notin> set n \<Longrightarrow>
     set (components (''/'' @ child_path rel n)) \<subseteq> set (components rel) \<union> {n}"
  using components_child_path' [of n rel] by (simp add: components_leading_slash)

lemma listing_visible:
  "wf_entries (prune es) \<Longrightarrow> f \<in> set (listing rel (prune es)) \<Longrightarrow>
     c \<in> set (components (fi_path f)) \<Longrightarrow> c \<in> set (components rel) \<or> \<not> hidden c"
proof (induction es arbitrary: rel f rule: prune.induct)
  case 1
  then show ?case by simp
next
  case (2 name node rest)
  show ?case
  proof (cases "hidden name")
    case True
    then show ?thesis using 2(1)[OF True, of f rel] 2(4-6) by simp
  next
    case False
    from 2(4) False have ns: "CHR ''/'' \<notin> set name" and wr: "wf_entries (prune rest)" by auto
    note own = components_child_path [OF ns, of rel]
    note sub = components_child_path' [OF ns, of rel]
    show ?thesis
    proof (cases node)
      case (Dir entries)
      from 2(4) False Dir have wk: "wf_entries (prune entries)" by simp
      from 2(5) False Dir consider
          "f = dir_entry rel name"
        | "f \<in> set (listing (child_path rel name) (prune entries))"
        | "f \<in> set (listing rel (prune rest))" by auto
      then show ?thesis
      proof cases
        case 1
        then show ?thesis using own 2(6) False by (auto simp: dir_entry_def)
      next
        case 2
        from "2.IH"(2)[OF False Dir wk 2 "2.prems"(3)] sub False show ?thesis by auto
      next
        case 3
        from "2.IH"(3)[OF False wr 3 "2.prems"(3)] show ?thesis .
      qed
    next
      case (File st)
      from 2(5) False File consider "f = file_entry rel name st" | "f \<in> set (listing rel (prune rest))"
        by auto
      then show ?thesis
      proof cases
        case 1
        then show ?thesis using own 2(6) False by (auto simp: file_entry_def)
      next
        case 2
        from "2.IH"(3)[OF False wr 2 "2.prems"(3)] show ?thesis .
      qed
    next
      case (StatFails e)
      from 2(5) False StatFails have "f \<in> set (listing rel (prune rest))" by auto
      from "2.IH"(3)[OF False wr this "2.prems"(3)] show ?thesis .
    next
      case (ReaddirFails e)
      from 2(5) False ReaddirFails consider "f = dir_entry rel name" | "f \<in> set (listing rel (prune rest))"
        by auto
      then show ?thesis
      proof cases
        case 1
        then show ?thesis using own 2(6) False by (auto simp: dir_entry_def)
      next
        case 2
        from "2.IH"(3)[OF False wr 2 "2.prems"(3)] show ?thesis .
      qed
    qed
  qed
qed

lemma listing_Cons:
  "listing rel ((name, node) # rest)
     = own_entry rel name node @ sub_listing rel name node @ listing rel rest"
  by (cases node) (simp_all add: own_entry_def sub_listing_def)

lemma child_path_base: "''/'' @ child_path rel name = base rel @ name"
  by (simp add: child_path_def base_def)

lemma base_child_path: "name \<noteq> [] \<Longrightarrow> base (child_path rel name) = base rel @ name @ ''/''"
  by (simp add: child_path_def base_def)

lemma own_entry_path: "f \<in> set (own_entry rel name node) \<Longrightarrow> fi_path f = base rel @ name"
  using child_path_base [of rel name]
  by (cases node) (auto simp: own_entry_def dir_entry_def file_entry_def)

lemma wf_entries_names:
  "wf_entries es \<Longrightarrow> n \<in> fst ` set es \<Longrightarrow> n \<noteq> [] \<and> CHR ''/'' \<notin> set n"
  by (induction es rule: wf_entries.induct) auto

lemma listing_rooted:
  "wf_entries es \<Longrightarrow> f \<in> set (listing rel es) \<Longrightarrow>
     \<exists>n \<in> fst ` set es. rooted (base rel) n (fi_path f)"
proof (induction es arbitrary: rel f rule: wf_entries.induct)
  case 1
  then show ?case by simp
next
  case (2 name node rest)
  from "2.prems"(1) have ne: "name \<noteq> []" and wr: "wf_entries rest" by auto
  from "2.prems"(2) consider
      "f \<in> set (own_entry rel name node)"
    | "f \<in> set (sub_listing rel name node)"
    | "f \<in> set (listing rel rest)"
    by (auto simp: listing_Cons simp del: listing.simps)
  then show ?case
  proof cases
    case 1
    then have "rooted (base rel) name (fi_path f)"
      by (simp add: rooted_def own_entry_path)
    then show ?thesis by auto
  next
    case 2
    then obtain entries where d: "node = Dir entries"
      and f: "f \<in> set (listing (child_path rel name) entries)"
      by (cases node) (auto simp: sub_listing_def)
    from "2.prems"(1) d have wk: "wf_entries entries" by simp
    from "2.IH"(1)[OF d wk f] obtain k t where
      "fi_path f = base (child_path rel name) @ k @ t"
      by (auto simp: rooted_def)
    then have "fi_path f = base rel @ name @ (''/'' @ k @ t)"
      by (simp add: base_child_path [OF ne])
    then have "rooted (base rel) name (fi_path f)"
      unfolding rooted_def by (intro exI[of _ "''/'' @ k @ t"]) simp
    then show ?thesis by auto
  next
    case 3
    from "2.IH"(2)[OF wr 3] show ?thesis by auto
  qed
qed

lemma sub_listing_path:
  assumes "wf_entries ((name, node) # rest)" and "f \<in> set (sub_listing rel name node)"
  shows "\<exists>t. fi_path f = base rel @ name @ ''/'' @ t"
proof -
  from assms(2) obtain entries where d: "node = Dir entries"
    and f: "f \<in> set (listing (child_path rel name) entries)"
    by (cases node) (auto simp: sub_listing_def)
  from assms(1) d have wk: "wf_entries entries" and ne: "name \<noteq> []" by auto
  from listing_rooted [OF wk f] obtain k t where
    "fi_path f = base (child_path rel name) @ k @ t"
    by (auto simp: rooted_def)
  then show ?thesis by (simp add: base_child_path [OF ne])
qed

lemma below_longer: "below d p \<Longrightarrow> length d < length p"
proof -
  assume "below d p"
  then have "take (length (d @ ''/'')) p = d @ ''/''" by (simp add: below_def startsWith_def)
  then have "length (d @ ''/'') \<le> length p"
    by (metis length_take min.cobounded1)
  then show ?thesis by simp
qed

lemma below_append: "below d p \<Longrightarrow> \<exists>w. p = d @ ''/'' @ w"
proof -
  assume "below d p"
  then have "take (length (d @ ''/'')) p = d @ ''/''" by (simp add: below_def startsWith_def)
  then have "p = (d @ ''/'') @ drop (length (d @ ''/'')) p"
    by (metis append_take_drop_id)
  then show ?thesis by (metis append.assoc)
qed

lemma takeWhile_name_slash:
  "CHR ''/'' \<notin> set n \<Longrightarrow> takeWhile (\<lambda>c. c \<noteq> CHR ''/'') (n @ CHR ''/'' # z) = n"
  by (induction n) auto

lemma takeWhile_name:
  "CHR ''/'' \<notin> set n \<Longrightarrow> takeWhile (\<lambda>c. c \<noteq> CHR ''/'') n = n"
  by (induction n) auto

lemma name_before_slash:
  assumes "CHR ''/'' \<notin> set n" and "t = [] \<or> hd t = CHR ''/''"
  shows "takeWhile (\<lambda>c. c \<noteq> CHR ''/'') (n @ t) = n"
proof (cases t)
  case Nil
  then show ?thesis using assms(1) by (simp add: takeWhile_name)
next
  case (Cons c t')
  with assms(2) have "c = CHR ''/''" by simp
  then show ?thesis using assms(1) Cons by (simp add: takeWhile_name_slash)
qed

lemma rooted_apart:
  assumes "rooted b n p" and "rooted b m q"
    and "CHR ''/'' \<notin> set n" and "CHR ''/'' \<notin> set m" and "n \<noteq> m"
  shows "\<not> below q p"
proof
  assume "below q p"
  then obtain w where w: "p = q @ ''/'' @ w" using below_append by blast
  from assms(1) obtain t where t: "p = b @ n @ t" "t = [] \<or> hd t = CHR ''/''"
    by (auto simp: rooted_def)
  from assms(2) obtain u where u: "q = b @ m @ u" "u = [] \<or> hd u = CHR ''/''"
    by (auto simp: rooted_def)
  from w t(1) u(1) have eq: "n @ t = m @ (u @ ''/'' @ w)" by simp
  have v: "u @ ''/'' @ w = [] \<or> hd (u @ ''/'' @ w) = CHR ''/''"
    using u(2) by (cases u) auto
  have "takeWhile (\<lambda>c. c \<noteq> CHR ''/'') (n @ t) = n"
    by (rule name_before_slash [OF assms(3) t(2)])
  moreover have "takeWhile (\<lambda>c. c \<noteq> CHR ''/'') (m @ (u @ ''/'' @ w)) = m"
    by (rule name_before_slash [OF assms(4) v])
  ultimately show False using eq assms(5) by simp
qed

lemma children_follow_append:
  "children_follow (xs @ ys) \<longleftrightarrow>
     children_follow xs \<and> children_follow ys
     \<and> (\<forall>f \<in> set xs. \<forall>d \<in> set ys. fi_is_dir d \<longrightarrow> \<not> below (fi_path d) (fi_path f))"
  by (induction xs) auto

lemma own_entry_follow: "children_follow (own_entry rel name node)"
  by (cases node) (simp_all add: own_entry_def)

lemma listing_children_follow: "wf_entries es \<Longrightarrow> children_follow (listing rel es)"
proof (induction es arbitrary: rel rule: wf_entries.induct)
  case 1
  show ?case by simp
next
  case (2 name node rest)
  from "2.prems" have wr: "wf_entries rest" and ns: "CHR ''/'' \<notin> set name"
    and fresh: "name \<notin> fst ` set rest" by auto
  have kids: "children_follow (sub_listing rel name node)"
  proof (cases node)
    case (Dir entries)
    with "2.prems" have "wf_entries entries" by simp
    from "2.IH"(1)[OF Dir this] Dir show ?thesis by (simp add: sub_listing_def)
  qed (simp_all add: sub_listing_def)
  have rest: "children_follow (listing rel rest)" by (rule "2.IH"(2)[OF wr])
  have own_root: "rooted (base rel) name (fi_path f)" if "f \<in> set (own_entry rel name node)" for f :: FileInfo
    using own_entry_path [OF that] by (simp add: rooted_def)
  have kid_root: "rooted (base rel) name (fi_path f)" if "f \<in> set (sub_listing rel name node)" for f :: FileInfo
  proof -
    from sub_listing_path [OF "2.prems" that] obtain t where
      "fi_path f = base rel @ name @ ''/'' @ t" by blast
    then show ?thesis unfolding rooted_def by (intro exI[of _ "''/'' @ t"]) simp
  qed
  have apart: "\<not> below (fi_path d) (fi_path f)"
    if "rooted (base rel) name (fi_path f)" and "d \<in> set (listing rel rest)" for f d :: FileInfo
  proof -
    from listing_rooted [OF wr that(2)] obtain m where
      m: "m \<in> fst ` set rest" "rooted (base rel) m (fi_path d)" by blast
    from wf_entries_names [OF wr m(1)] have ms: "CHR ''/'' \<notin> set m" by simp
    from m(1) fresh have "name \<noteq> m" by auto
    from rooted_apart [OF that(1) m(2) ns ms this] show ?thesis .
  qed
  have own_kids: "\<not> below (fi_path d) (fi_path f)"
    if "f \<in> set (own_entry rel name node)" and "d \<in> set (sub_listing rel name node)" for f d :: FileInfo
  proof
    assume b: "below (fi_path d) (fi_path f)"
    from sub_listing_path [OF "2.prems" that(2)] obtain t where
      "fi_path d = base rel @ name @ ''/'' @ t" by blast
    with own_entry_path [OF that(1)] below_longer [OF b] show False by simp
  qed
  have tail: "children_follow (sub_listing rel name node @ listing rel rest)"
    using kids rest kid_root apart by (auto simp: children_follow_append)
  have "children_follow (own_entry rel name node @ sub_listing rel name node @ listing rel rest)"
    using tail own_entry_follow [of rel name node] own_root own_kids apart
    by (auto simp: children_follow_append)
  then show ?case by (simp add: listing_Cons del: listing.simps)
qed

lemma children_follow_nth:
  "children_follow fs \<Longrightarrow> j < i \<Longrightarrow> i < length fs \<Longrightarrow> fi_is_dir (fs ! i) \<Longrightarrow>
     \<not> below (fi_path (fs ! i)) (fi_path (fs ! j))"
proof (induction fs arbitrary: i j)
  case Nil
  then show ?case by simp
next
  case (Cons f fs)
  from Cons.prems(2) obtain i' where i: "i = Suc i'" by (cases i) auto
  show ?case
  proof (cases j)
    case 0
    from Cons.prems(3) i have "fs ! i' \<in> set fs" by simp
    with Cons.prems(1,4) i 0 show ?thesis by simp
  next
    case (Suc j')
    with Cons.IH [of j' i'] Cons.prems i show ?thesis by simp
  qed
qed

lemma listing_parent_first:
  assumes "wf_entries es" and "i < length (listing rel es)" and "j < length (listing rel es)"
    and "fi_is_dir (listing rel es ! i)"
    and "below (fi_path (listing rel es ! i)) (fi_path (listing rel es ! j))"
  shows "i < j"
proof (rule ccontr)
  assume "\<not> i < j"
  then consider "j = i" | "j < i" by linarith
  then show False
  proof cases
    case 1
    with below_longer [OF assms(5)] show False by simp
  next
    case 2
    from children_follow_nth [OF listing_children_follow [OF assms(1)] 2 assms(2) assms(4)] assms(5)
    show False by simp
  qed
qed

lemma load_readdir_fails:
  assumes "bound_to s threadId wp" and "fs_readdir fs wp = Inl e"
  shows "workspace_loadFromDisk fs s threadId
           = (LoadFailure e [], s\<lparr>trace := trace s @ [FsReaddir wp]\<rparr>)"
  using bound_workspacePath [OF assms(1)] assms(2)
  by (simp add: workspace_loadFromDisk_def)

lemma load_traversal_fails:
  assumes "bound_to s threadId wp" and "fs_readdir fs wp = Inr entries"
    and "first_failure entries = Some e"
  shows "\<exists>ops. workspace_loadFromDisk fs s threadId
           = (LoadFailure e [], s\<lparr>trace := trace s @ ops\<rparr>)"
proof -
  obtain r files ops where r: "readDir wp [] entries ([], [FsReaddir wp]) = (r, files, ops)"
    by (metis prod.collapse)
  with readDir_failure [of wp "[]" entries "([], [FsReaddir wp])"] assms(3)
  have "r = Some e" by simp
  with r bound_workspacePath [OF assms(1)] assms(2)
  have "workspace_loadFromDisk fs s threadId = (LoadFailure e [], s\<lparr>trace := trace s @ ops\<rparr>)"
    by (simp add: workspace_loadFromDisk_def)
  then show ?thesis by blast
qed

lemma load_traversal_succeeds:
  assumes "bound_to s threadId wp" and "fs_readdir fs wp = Inr entries"
    and "first_failure entries = None"
  shows "\<exists>ops. workspace_loadFromDisk fs s threadId
           = (LoadSuccess (listing [] (prune entries)) wp,
              startWatching (s\<lparr>trace := trace s @ ops\<rparr>) threadId wp)"
proof -
  obtain r files ops where r: "readDir wp [] entries ([], [FsReaddir wp]) = (r, files, ops)"
    by (metis prod.collapse)
  with readDir_failure [of wp "[]" entries "([], [FsReaddir wp])"] assms(3)
  have "r = None" by simp
  moreover from r readDir_files [OF assms(3), of wp "[]" "[]" "[FsReaddir wp]"]
  have "files = listing [] (prune entries)" by simp
  ultimately have "workspace_loadFromDisk fs s threadId
           = (LoadSuccess (listing [] (prune entries)) wp,
              startWatching (s\<lparr>trace := trace s @ ops\<rparr>) threadId wp)"
    using r bound_workspacePath [OF assms(1)] assms(2)
    by (simp add: workspace_loadFromDisk_def)
  then show ?thesis by blast
qed

lemma locked_readdir: "fs_readdir locked_fs ''/workspace'' = Inr locked_entries"
  by (simp add: locked_fs_def)

lemma locked_first_failure:
  "first_failure locked_entries
     = Some ''EACCES: permission denied, scandir /workspace/src/locked''"
  by (simp add: locked_entries_def hidden_def startsWith_def)

lemma example_readdir: "fs_readdir example_fs ''/workspace'' = Inr example_entries"
  by (simp add: example_fs_def)

lemma example_first_failure: "first_failure example_entries = None"
  by (simp add: example_entries_def hidden_def startsWith_def)

lemma example_listing:
  "listing [] (prune example_entries)
     = [\<lparr>fi_path = ''/src'', fi_is_dir = True, fi_size = None, fi_modified_at = None\<rparr>,
        \<lparr>fi_path = ''/src/a.txt'', fi_is_dir = False, fi_size = Some 5,
          fi_modified_at = Some ''2026-01-01T00:00:00.000Z''\<rparr>]"
  by (simp add: example_entries_def hidden_def startsWith_def dir_entry_def file_entry_def
      child_path_def file_stats_def)

lemma readDir_ops:
  "snd (snd (readDir d r es (files, ops))) = ops @ walk_ops d es"
proof (induction es arbitrary: d r files ops rule: prune.induct)
  case 1
  show ?case by simp
next
  case (2 name node rest)
  show ?case
  proof (cases "hidden name")
    case True
    then show ?thesis using 2(1) by (simp add: readDir_hidden del: readDir.simps)
  next
    case False
    note rest = 2(3)[OF False]
    show ?thesis
    proof (cases node)
      case (Dir entries)
      let ?r1 = "readDir (path_join [d, name]) (child_path r name) entries
                 (files @ [dir_entry r name], ops @ [FsReaddir (path_join [d, name])])"
      have e1: "fst ?r1 = first_failure entries" by (rule readDir_failure)
      have o1: "snd (snd ?r1) = (ops @ [FsReaddir (path_join [d, name])])
                  @ walk_ops (path_join [d, name]) entries"
        by (rule 2(2)[OF False Dir])
      obtain files1 where r1: "?r1 = (first_failure entries, files1,
          (ops @ [FsReaddir (path_join [d, name])]) @ walk_ops (path_join [d, name]) entries)"
        using e1 o1 by (metis prod.collapse)
      show ?thesis
        using False Dir rest
        by (cases "first_failure entries") (simp_all add: readDir_Dir r1 del: readDir.simps)
    qed (use False rest in \<open>simp_all add: readDir_cases del: readDir.simps\<close>)
  qed
qed

lemma walk_ops_reads: "list_all fs_read (walk_ops d es)"
proof (induction es arbitrary: d rule: prune.induct)
  case 1
  show ?case by simp
next
  case (2 name node rest)
  show ?case
  proof (cases "hidden name")
    case True
    then show ?thesis using 2(1) by simp
  next
    case False
    show ?thesis
      using False 2(2)[OF False] 2(3)[OF False]
      by (cases node) (simp_all add: fs_read_def)
  qed
qed

lemma failing_read_None: "failing_read d es = None \<longleftrightarrow> first_failure es = None"
proof (induction es arbitrary: d rule: prune.induct)
  case 1
  show ?case by simp
next
  case (2 name node rest)
  show ?case
  proof (cases "hidden name")
    case True
    then show ?thesis using 2(1) by simp
  next
    case False
    note rest = 2(3)[OF False, of d]
    show ?thesis
    proof (cases node)
      case (Dir entries)
      from 2(2)[OF False Dir, of "path_join [d, name]"] rest False Dir
      show ?thesis by (auto split: option.splits)
    qed (use False rest in simp_all)
  qed
qed

lemma walk_ops_ends_at_failure:
  "first_failure es = Some e \<Longrightarrow>
     walk_ops d es \<noteq> [] \<and> failing_read d es = Some (last (walk_ops d es))"
proof (induction es arbitrary: d e rule: prune.induct)
  case 1
  then show ?case by simp
next
  case (2 name node rest)
  show ?case
  proof (cases "hidden name")
    case True
    then show ?thesis using 2(1)[OF True, of e d] 2(4) by simp
  next
    case False
    show ?thesis
    proof (cases node)
      case (Dir entries)
      show ?thesis
      proof (cases "first_failure entries")
        case None
        with 2(4) False Dir have "first_failure rest = Some e" by simp
        from 2(3)[OF False this, of d] None False Dir
          failing_read_None [of "path_join [d, name]" entries]
        show ?thesis by simp
      next
        case (Some e')
        from 2(2)[OF False Dir Some, of "path_join [d, name]"] Some False Dir
        show ?thesis by auto
      qed
    next
      case (File st)
      with 2(4) False have "first_failure rest = Some e" by simp
      from 2(3)[OF False this, of d] False File show ?thesis by simp
    qed (use False in simp_all)
  qed
qed

lemma readDir_cut: "readDir d r (cut_after_failure es) acc = readDir d r es acc"
proof (induction es arbitrary: d r acc rule: prune.induct)
  case 1
  show ?case by simp
next
  case (2 name node rest)
  obtain files ops where acc: "acc = (files, ops)" by (cases acc)
  show ?case
  proof (cases "hidden name")
    case True
    then show ?thesis using 2(1) by (simp add: readDir_hidden del: readDir.simps)
  next
    case False
    note rest = 2(3)[OF False]
    show ?thesis
    proof (cases node)
      case (Dir entries)
      let ?a = "(files @ [dir_entry r name], ops @ [FsReaddir (path_join [d, name])])"
      have k: "readDir (path_join [d, name]) (child_path r name) (cut_after_failure entries) ?a
             = readDir (path_join [d, name]) (child_path r name) entries ?a"
        by (rule 2(2)[OF False Dir])
      have f: "fst (readDir (path_join [d, name]) (child_path r name) entries ?a)
             = first_failure entries"
        by (rule readDir_failure)
      show ?thesis
      proof (cases "first_failure entries")
        case None
        then show ?thesis
          using False Dir rest
          by (auto simp: acc readDir_Dir simp del: readDir.simps split: prod.splits option.splits)
      next
        case (Some e)
        then show ?thesis
          using False Dir k f
          by (auto simp: acc readDir_Dir simp del: readDir.simps split: prod.splits option.splits)
      qed
    qed (use False rest in \<open>simp_all add: acc readDir_cases del: readDir.simps\<close>)
  qed
qed

lemma load_traversal_state:
  assumes "bound_to s threadId wp" and "fs_readdir fs wp = Inr entries"
  shows "workspace_loadFromDisk fs s threadId
           = (case first_failure entries of
                Some e \<Rightarrow>
                  (LoadFailure e [], s\<lparr>trace := trace s @ FsReaddir wp # walk_ops wp entries\<rparr>)
              | None \<Rightarrow>
                  (LoadSuccess (listing [] (prune entries)) wp,
                   startWatching (s\<lparr>trace := trace s @ FsReaddir wp # walk_ops wp entries\<rparr>)
                     threadId wp))"
proof -
  obtain r files ops where r: "readDir wp [] entries ([], [FsReaddir wp]) = (r, files, ops)"
    by (metis prod.collapse)
  from r readDir_failure [of wp "[]" entries "([], [FsReaddir wp])"]
  have e: "r = first_failure entries" by simp
  from r readDir_ops [of wp "[]" entries "[]" "[FsReaddir wp]"]
  have o: "ops = FsReaddir wp # walk_ops wp entries" by simp
  show ?thesis
  proof (cases "first_failure entries")
    case None
    from r readDir_files [OF None, of wp "[]" "[]" "[FsReaddir wp]"]
    have "files = listing [] (prune entries)" by simp
    with None r e o bound_workspacePath [OF assms(1)] assms(2) show ?thesis
      by (simp add: workspace_loadFromDisk_def)
  next
    case (Some x)
    with r e o bound_workspacePath [OF assms(1)] assms(2) show ?thesis
      by (simp add: workspace_loadFromDisk_def)
  qed
qed

lemma load_cut:
  assumes "fs_readdir fs wp = Inr entries"
  shows "workspace_loadFromDisk
           (fs\<lparr>fs_readdir := (fs_readdir fs)(wp := Inr (cut_after_failure entries))\<rparr>) s threadId
           = workspace_loadFromDisk fs s threadId"
proof (cases "metadata_workspacePath (parsed_metadata s threadId) = Some wp")
  case True
  then show ?thesis
    using assms by (simp add: workspace_loadFromDisk_def readDir_cut del: readDir.simps)
next
  case False
  then show ?thesis
    by (auto simp: workspace_loadFromDisk_def split: option.splits)
qed

lemma example_joins:
  "path_join [''/workspace'', ''a.txt''] = ''/workspace/a.txt''"
  "path_join [''/workspace'', ''src''] = ''/workspace/src''"
  "path_join [''/workspace/src'', ''ok.txt''] = ''/workspace/src/ok.txt''"
  "path_join [''/workspace/src'', ''locked''] = ''/workspace/src/locked''"
  "path_join [''/workspace/src'', ''a.txt''] = ''/workspace/src/a.txt''"
  by (simp_all add: path_join_def normalize_def normalizeString_def)

lemma locked_walk_ops:
  "walk_ops ''/workspace'' locked_entries
     = [FsStat ''/workspace/a.txt'', FsReaddir ''/workspace/src'',
        FsStat ''/workspace/src/ok.txt'', FsReaddir ''/workspace/src/locked'']"
  by (simp add: locked_entries_def hidden_def startsWith_def example_joins)

lemma locked_failing_read:
  "failing_read ''/workspace'' locked_entries = Some (FsReaddir ''/workspace/src/locked'')"
  by (simp add: locked_entries_def hidden_def startsWith_def example_joins)

lemma locked_cut:
  "cut_after_failure locked_entries
     = [(''a.txt'', File (file_stats 1)),
        (''src'', Dir [(''ok.txt'', File (file_stats 2)),
                       (''locked'', ReaddirFails
                          ''EACCES: permission denied, scandir /workspace/src/locked'')])]"
  by (simp add: locked_entries_def hidden_def startsWith_def)

lemma example_walk_ops:
  "walk_ops ''/workspace'' example_entries
     = [FsReaddir ''/workspace/src'', FsStat ''/workspace/src/a.txt'']"
  by (simp add: example_entries_def hidden_def startsWith_def example_joins)

text \<open>
  C2, as amended: for a bound session, a failure of any directory read or file stat that
  the traversal of \<^verbatim>\<open>workspace:loadFromDisk\<close> makes, at the workspace root or below
  it in an entry that is not filtered out, ends the traversal there: the file-system
  calls recorded are those of the walk up to the first failure, the last of them is the
  read that failed, and nothing that comes after it on the disk changes the result or the
  calls. The whole call then returns a failure result that carries the message of that
  first failure, with an empty file list; the state it leaves differs from the one it
  found by those reads only, so no watch is started, stopped or restarted. The call
  reports success, with the whole listing of the filtered tree, and then starts the watch
  of the session, exactly when no such read fails.
\<close>

theorem load_aborts_on_first_failure:
  assumes "bound_to s threadId wp"
  shows "(\<forall>e. fs_readdir fs wp = Inl e \<longrightarrow>
            workspace_loadFromDisk fs s threadId
              = (LoadFailure e [], s\<lparr>trace := trace s @ [FsReaddir wp]\<rparr>))
       \<and> (\<forall>entries e. fs_readdir fs wp = Inr entries \<and> first_failure entries = Some e \<longrightarrow>
            workspace_loadFromDisk fs s threadId
              = (LoadFailure e [],
                 s\<lparr>trace := trace s @ FsReaddir wp # walk_ops wp entries\<rparr>)
            \<and> failing_read wp entries = Some (last (FsReaddir wp # walk_ops wp entries))
            \<and> workspace_loadFromDisk
                 (fs\<lparr>fs_readdir := (fs_readdir fs)(wp := Inr (cut_after_failure entries))\<rparr>)
                 s threadId
                = workspace_loadFromDisk fs s threadId
            \<and> watchers (snd (workspace_loadFromDisk fs s threadId)) = watchers s)
       \<and> (\<forall>entries. fs_readdir fs wp = Inr entries \<and> first_failure entries = None \<longrightarrow>
            workspace_loadFromDisk fs s threadId
              = (LoadSuccess (listing [] (prune entries)) wp,
                 startWatching (s\<lparr>trace := trace s @ FsReaddir wp # walk_ops wp entries\<rparr>)
                   threadId wp)
            \<and> watchers (snd (workspace_loadFromDisk fs s threadId))
                = (watchers s)(threadId \<mapsto> wp))
       \<and> (\<forall>entries. list_all fs_read (FsReaddir wp # walk_ops wp entries))"
proof (intro conjI allI impI)
  fix e assume "fs_readdir fs wp = Inl e"
  from load_readdir_fails [OF assms this]
  show "workspace_loadFromDisk fs s threadId
          = (LoadFailure e [], s\<lparr>trace := trace s @ [FsReaddir wp]\<rparr>)" .
next
  fix entries e
  assume a: "fs_readdir fs wp = Inr entries \<and> first_failure entries = Some e"
  then have st: "workspace_loadFromDisk fs s threadId
              = (LoadFailure e [],
                 s\<lparr>trace := trace s @ FsReaddir wp # walk_ops wp entries\<rparr>)"
    using load_traversal_state [OF assms, of fs entries] by simp
  from st show "workspace_loadFromDisk fs s threadId
              = (LoadFailure e [],
                 s\<lparr>trace := trace s @ FsReaddir wp # walk_ops wp entries\<rparr>)" .
  from a walk_ops_ends_at_failure [of entries e wp]
  show "failing_read wp entries = Some (last (FsReaddir wp # walk_ops wp entries))" by simp
  from a show "workspace_loadFromDisk
                 (fs\<lparr>fs_readdir := (fs_readdir fs)(wp := Inr (cut_after_failure entries))\<rparr>)
                 s threadId
                = workspace_loadFromDisk fs s threadId"
    by (intro load_cut) simp
  from st show "watchers (snd (workspace_loadFromDisk fs s threadId)) = watchers s" by simp
next
  fix entries
  assume a: "fs_readdir fs wp = Inr entries \<and> first_failure entries = None"
  then have st: "workspace_loadFromDisk fs s threadId
              = (LoadSuccess (listing [] (prune entries)) wp,
                 startWatching (s\<lparr>trace := trace s @ FsReaddir wp # walk_ops wp entries\<rparr>)
                   threadId wp)"
    using load_traversal_state [OF assms, of fs entries] by simp
  from st show "workspace_loadFromDisk fs s threadId
              = (LoadSuccess (listing [] (prune entries)) wp,
                 startWatching (s\<lparr>trace := trace s @ FsReaddir wp # walk_ops wp entries\<rparr>)
                   threadId wp)" .
  from st show "watchers (snd (workspace_loadFromDisk fs s threadId))
                = (watchers s)(threadId \<mapsto> wp)"
    by (simp add: startWatching_def)
next
  fix entries
  show "list_all fs_read (FsReaddir wp # walk_ops wp entries)"
    using walk_ops_reads [of wp entries] by (simp add: fs_read_def)
qed

theorem load_aborts_on_first_failure_witness:
  "bound_to example_state ''t1'' ''/workspace''
   \<and> fs_readdir locked_fs ''/workspace'' = Inr locked_entries
   \<and> first_failure locked_entries
        = Some ''EACCES: permission denied, scandir /workspace/src/locked''
   \<and> workspace_loadFromDisk locked_fs example_state ''t1''
        = (LoadFailure ''EACCES: permission denied, scandir /workspace/src/locked'' [],
           example_state\<lparr>trace := [FsReaddir ''/workspace'', FsStat ''/workspace/a.txt'',
                                     FsReaddir ''/workspace/src'', FsStat ''/workspace/src/ok.txt'',
                                     FsReaddir ''/workspace/src/locked'']\<rparr>)
   \<and> failing_read ''/workspace'' locked_entries = Some (FsReaddir ''/workspace/src/locked'')
   \<and> workspace_loadFromDisk
        (locked_fs\<lparr>fs_readdir := (fs_readdir locked_fs)
                      (''/workspace'' := Inr
                         [(''a.txt'', File (file_stats 1)),
                          (''src'', Dir [(''ok.txt'', File (file_stats 2)),
                                         (''locked'', ReaddirFails
                                            ''EACCES: permission denied, scandir /workspace/src/locked'')])])\<rparr>)
        example_state ''t1''
        = workspace_loadFromDisk locked_fs example_state ''t1''
   \<and> fs_readdir example_fs ''/workspace'' = Inr example_entries
   \<and> first_failure example_entries = None
   \<and> workspace_loadFromDisk example_fs example_state ''t1''
        = (LoadSuccess
             [\<lparr>fi_path = ''/src'', fi_is_dir = True, fi_size = None, fi_modified_at = None\<rparr>,
              \<lparr>fi_path = ''/src/a.txt'', fi_is_dir = False, fi_size = Some 5,
                fi_modified_at = Some ''2026-01-01T00:00:00.000Z''\<rparr>]
             ''/workspace'',
           startWatching
             (example_state\<lparr>trace := [FsReaddir ''/workspace'', FsReaddir ''/workspace/src'',
                                       FsStat ''/workspace/src/a.txt'']\<rparr>)
             ''t1'' ''/workspace'')
   \<and> fs_readdir (example_fs\<lparr>fs_readdir := (\<lambda>p. Inl ''ENOENT: no such file or directory'')\<rparr>)
        ''/workspace'' = Inl ''ENOENT: no such file or directory''
   \<and> workspace_loadFromDisk
        (example_fs\<lparr>fs_readdir := (\<lambda>p. Inl ''ENOENT: no such file or directory'')\<rparr>)
        example_state ''t1''
        = (LoadFailure ''ENOENT: no such file or directory'' [],
           example_state\<lparr>trace := [FsReaddir ''/workspace'']\<rparr>)"
proof -
  have e: "trace example_state = []" by (simp add: example_state_def)
  show ?thesis
    using example_bound locked_readdir locked_first_failure example_readdir example_first_failure
      locked_failing_read e
      load_aborts_on_first_failure [OF example_bound, of locked_fs]
      load_aborts_on_first_failure [OF example_bound, of example_fs]
      load_aborts_on_first_failure [OF example_bound,
        of "example_fs\<lparr>fs_readdir := (\<lambda>p. Inl ''ENOENT: no such file or directory'')\<rparr>"]
    by (simp add: example_listing locked_walk_ops locked_cut example_walk_ops)
qed

text \<open>
  The claim as first stated fails on the second sample disk: the unreadable directory
  \<^verbatim>\<open>src/locked\<close> lies below the top level, yet the call returns a failure with no
  files at all, and the traversal never reaches \<^verbatim>\<open>src/later.txt\<close> or \<^verbatim>\<open>z.txt\<close>.
\<close>

theorem failing_subdirectory_fails_whole_listing:
  "bound_to example_state ''t1'' ''/workspace''
   \<and> fs_readdir locked_fs ''/workspace'' = Inr locked_entries
   \<and> workspace_loadFromDisk locked_fs example_state ''t1''
        = (LoadFailure ''EACCES: permission denied, scandir /workspace/src/locked'' [],
           example_state\<lparr>trace := [FsReaddir ''/workspace'', FsStat ''/workspace/a.txt'',
                                     FsReaddir ''/workspace/src'', FsStat ''/workspace/src/ok.txt'',
                                     FsReaddir ''/workspace/src/locked'']\<rparr>)"
proof -
  have m: "metadata_workspacePath (parsed_metadata example_state ''t1'') = Some ''/workspace''"
    using bound_workspacePath [OF example_bound] by simp
  have j: "path_join [''/workspace'', ''a.txt''] = ''/workspace/a.txt''"
    "path_join [''/workspace'', ''src''] = ''/workspace/src''"
    "path_join [''/workspace/src'', ''ok.txt''] = ''/workspace/src/ok.txt''"
    "path_join [''/workspace/src'', ''locked''] = ''/workspace/src/locked''"
    by (simp_all add: path_join_def normalize_def normalizeString_def)
  have e: "trace example_state = []" by (simp add: example_state_def)
  have "readDir ''/workspace'' [] locked_entries ([], [FsReaddir ''/workspace''])
      = (Some ''EACCES: permission denied, scandir /workspace/src/locked'',
         [\<lparr>fi_path = ''/a.txt'', fi_is_dir = False, fi_size = Some 1,
            fi_modified_at = Some ''2026-01-01T00:00:00.000Z''\<rparr>,
          \<lparr>fi_path = ''/src'', fi_is_dir = True, fi_size = None, fi_modified_at = None\<rparr>,
          \<lparr>fi_path = ''/src/ok.txt'', fi_is_dir = False, fi_size = Some 2,
            fi_modified_at = Some ''2026-01-01T00:00:00.000Z''\<rparr>,
          \<lparr>fi_path = ''/src/locked'', fi_is_dir = True, fi_size = None, fi_modified_at = None\<rparr>],
         [FsReaddir ''/workspace'', FsStat ''/workspace/a.txt'',
          FsReaddir ''/workspace/src'', FsStat ''/workspace/src/ok.txt'',
          FsReaddir ''/workspace/src/locked''])"
    by (simp add: locked_entries_def startsWith_def j file_stats_def Let_def)
  then show ?thesis
    using example_bound locked_readdir m e by (simp add: workspace_loadFromDisk_def)
qed

lemma load_prune:
  assumes "fs_readdir fs wp = Inr entries"
  shows "workspace_loadFromDisk (fs\<lparr>fs_readdir := (fs_readdir fs)(wp := Inr (prune entries))\<rparr>) s threadId
           = workspace_loadFromDisk fs s threadId"
proof (cases "metadata_workspacePath (parsed_metadata s threadId) = Some wp")
  case True
  then show ?thesis
    using assms by (simp add: workspace_loadFromDisk_def readDir_prune del: readDir.simps)
next
  case False
  then show ?thesis
    by (auto simp: workspace_loadFromDisk_def split: option.splits)
qed

lemma load_files_listing:
  assumes "bound_to s threadId wp" and "fs_readdir fs wp = Inr entries"
  shows "load_files (fst (workspace_loadFromDisk fs s threadId))
           = (if first_failure entries = None then listing [] (prune entries) else [])"
proof (cases "first_failure entries")
  case None
  with load_traversal_succeeds [OF assms None] show ?thesis by auto
next
  case (Some e)
  with load_traversal_fails [OF assms Some] show ?thesis by auto
qed

lemma example_wf: "wf_entries (prune example_entries)"
  by (simp add: example_entries_def hidden_def startsWith_def)

text \<open>
  C3: for a bound session whose root can be read, (a) the result and the effects of
  \<^verbatim>\<open>workspace:loadFromDisk\<close> are the same as on the disk from which every entry
  whose name begins with \<^verbatim>\<open>.\<close> or is \<^verbatim>\<open>node_modules\<close> has been taken away with
  all below it: such an entry is never descended into and contributes nothing; (b) when
  no read fails, the files returned are the depth-first listing of what is left, each
  directory followed at once by the listing of its children; and, on a tree whose names
  are proper (not empty, no \<^verbatim>\<open>/\<close>, unique in their directory), (c) no path returned
  has a filtered component and (d) every directory entry comes before every entry whose
  path lies below it. The witness is the tree with \<^verbatim>\<open>.git\<close>, \<^verbatim>\<open>node_modules\<close>
  and \<^verbatim>\<open>src/a.txt\<close>, which yields \<^verbatim>\<open>/src\<close> and then \<^verbatim>\<open>/src/a.txt\<close>.
\<close>

theorem traversal_depth_first_filtered:
  assumes "bound_to s threadId wp" and "fs_readdir fs wp = Inr entries"
  shows "workspace_loadFromDisk
           (fs\<lparr>fs_readdir := (fs_readdir fs)(wp := Inr (prune entries))\<rparr>) s threadId
           = workspace_loadFromDisk fs s threadId
       \<and> (first_failure entries = None \<longrightarrow>
            load_files (fst (workspace_loadFromDisk fs s threadId)) = listing [] (prune entries))
       \<and> (wf_entries (prune entries) \<longrightarrow>
            (\<forall>f \<in> set (load_files (fst (workspace_loadFromDisk fs s threadId))).
               \<forall>c \<in> set (components (fi_path f)). \<not> hidden c)
            \<and> (\<forall>i j. i < length (load_files (fst (workspace_loadFromDisk fs s threadId)))
                     \<and> j < length (load_files (fst (workspace_loadFromDisk fs s threadId)))
                     \<and> fi_is_dir (load_files (fst (workspace_loadFromDisk fs s threadId)) ! i)
                     \<and> below (fi_path (load_files (fst (workspace_loadFromDisk fs s threadId)) ! i))
                              (fi_path (load_files (fst (workspace_loadFromDisk fs s threadId)) ! j))
                   \<longrightarrow> i < j))"
proof -
  note files = load_files_listing [OF assms]
  have vis: "\<not> hidden c"
    if "wf_entries (prune entries)"
      and "f \<in> set (load_files (fst (workspace_loadFromDisk fs s threadId)))"
      and "c \<in> set (components (fi_path f))" for f :: FileInfo and c
  proof (cases "first_failure entries = None")
    case True
    with that(2) files have "f \<in> set (listing [] (prune entries))" by simp
    from listing_visible [OF that(1) this that(3)] show ?thesis
      by (simp add: components_def)
  next
    case False
    with that(2) files show ?thesis by simp
  qed
  have ord: "i < j"
    if "wf_entries (prune entries)"
      and "i < length (load_files (fst (workspace_loadFromDisk fs s threadId)))"
      and "j < length (load_files (fst (workspace_loadFromDisk fs s threadId)))"
      and "fi_is_dir (load_files (fst (workspace_loadFromDisk fs s threadId)) ! i)"
      and "below (fi_path (load_files (fst (workspace_loadFromDisk fs s threadId)) ! i))
                 (fi_path (load_files (fst (workspace_loadFromDisk fs s threadId)) ! j))" for i j
  proof (cases "first_failure entries = None")
    case True
    with files have "load_files (fst (workspace_loadFromDisk fs s threadId))
        = listing [] (prune entries)" by simp
    with that listing_parent_first [of "prune entries" i "[]" j] show ?thesis by simp
  next
    case False
    with that(2) files show ?thesis by simp
  qed
  show ?thesis
  proof (intro conjI impI ballI allI)
    show "workspace_loadFromDisk
           (fs\<lparr>fs_readdir := (fs_readdir fs)(wp := Inr (prune entries))\<rparr>) s threadId
           = workspace_loadFromDisk fs s threadId"
      by (rule load_prune [OF assms(2)])
  next
    assume "first_failure entries = None"
    with files show "load_files (fst (workspace_loadFromDisk fs s threadId))
        = listing [] (prune entries)" by simp
  next
    fix f :: FileInfo and c
    assume "wf_entries (prune entries)"
      and "f \<in> set (load_files (fst (workspace_loadFromDisk fs s threadId)))"
      and "c \<in> set (components (fi_path f))"
    then show "\<not> hidden c" by (rule vis)
  next
    fix i j
    assume "wf_entries (prune entries)"
      and "i < length (load_files (fst (workspace_loadFromDisk fs s threadId)))
           \<and> j < length (load_files (fst (workspace_loadFromDisk fs s threadId)))
           \<and> fi_is_dir (load_files (fst (workspace_loadFromDisk fs s threadId)) ! i)
           \<and> below (fi_path (load_files (fst (workspace_loadFromDisk fs s threadId)) ! i))
                    (fi_path (load_files (fst (workspace_loadFromDisk fs s threadId)) ! j))"
    then show "i < j" using ord by simp
  qed
qed

theorem traversal_depth_first_filtered_witness:
  "bound_to example_state ''t1'' ''/workspace''
   \<and> fs_readdir example_fs ''/workspace'' = Inr example_entries
   \<and> first_failure example_entries = None
   \<and> wf_entries (prune example_entries)
   \<and> load_files (fst (workspace_loadFromDisk example_fs example_state ''t1''))
        = [\<lparr>fi_path = ''/src'', fi_is_dir = True, fi_size = None, fi_modified_at = None\<rparr>,
           \<lparr>fi_path = ''/src/a.txt'', fi_is_dir = False, fi_size = Some 5,
             fi_modified_at = Some ''2026-01-01T00:00:00.000Z''\<rparr>]
   \<and> components ''/src/a.txt'' = [''src'', ''a.txt'']
   \<and> \<not> hidden ''src'' \<and> \<not> hidden ''a.txt''
   \<and> below ''/src'' ''/src/a.txt''
   \<and> workspace_loadFromDisk
        (example_fs\<lparr>fs_readdir := (fs_readdir example_fs)
                       (''/workspace'' := Inr (prune example_entries))\<rparr>) example_state ''t1''
        = workspace_loadFromDisk example_fs example_state ''t1''"
proof -
  have c: "components ''/src/a.txt'' = [''src'', ''a.txt'']"
    by (simp add: components_def)
  have h: "\<not> hidden ''src''" "\<not> hidden ''a.txt''"
    by (simp_all add: hidden_def startsWith_def)
  have b: "below ''/src'' ''/src/a.txt''"
    by (simp add: below_def startsWith_def)
  show ?thesis
    using example_bound example_readdir example_first_failure example_wf c h b
      traversal_depth_first_filtered [OF example_bound example_readdir]
    by (simp add: example_listing)
qed

end
